theory Spec2Isabelle
  imports Complex_Main "HOL-Library.Code_Target_Numeral"
begin

section \<open>Text, numbers and the C formatting primitives used by the exporter\<close>

text \<open>
  This theory embeds \<^verbatim>\<open>linear_solver/model_exporter.cc\<close>: the LP and MPS writers of
  \<^verbatim>\<open>MPModelProtoExporter\<close>, the name check, and the line breaker.

  A \<^verbatim>\<open>std::string\<close> is a \<^typ>\<open>string\<close> (a list of bytes). A \<^verbatim>\<open>double\<close> is a value of
  the datatype \<open>double\<close> below: an infinity, a not-a-number, or a finite value given by a
  rational. Three things of IEEE binary64 are abstracted and are said here once: both zeros
  are the one value \<open>Fin 0\<close> (they compare equal in C++ too, but \<^verbatim>\<open>printf\<close> writes a sign for
  the negative one), a not-a-number carries no sign, and the difference of two finite values
  is the exact rational (binary64 rounds it; it is exact whenever the exact difference is
  representable, as for small integers). Logging (\<^verbatim>\<open>LOG\<close>, \<^verbatim>\<open>LOG_IF\<close>) writes no output text
  and is left out; \<^verbatim>\<open>LOG(DFATAL)\<close> is taken as in an optimised build, where it logs and
  execution goes on to the \<^verbatim>\<open>return false\<close> that follows it.
\<close>

datatype double = NegInf | Fin rat | PosInf | NaN

text \<open>The comparison \<^verbatim>\<open>a == b\<close> of C++ on doubles: false as soon as one side is not a number.\<close>

fun deq :: "double \<Rightarrow> double \<Rightarrow> bool" where
  "deq NaN b = False"
| "deq a NaN = False"
| "deq a b = (a = b)"

text \<open>\<^verbatim>\<open>a != b\<close> is the negation of \<^verbatim>\<open>a == b\<close>, so it is true when one side is not a number.\<close>

definition dne :: "double \<Rightarrow> double \<Rightarrow> bool" where
  "dne a b = (\<not> deq a b)"

text \<open>\<^verbatim>\<open>ceil\<close>, \<open>floor\<close>, \<open>round\<close> (halves away from zero) and \<open>fabs\<close> of \<^verbatim>\<open><cmath>\<close>.\<close>

fun dceil :: "double \<Rightarrow> double" where
  "dceil (Fin r) = Fin (of_int (ceiling r))"
| "dceil d = d"

fun dfloor :: "double \<Rightarrow> double" where
  "dfloor (Fin r) = Fin (of_int (floor r))"
| "dfloor d = d"

fun dround :: "double \<Rightarrow> double" where
  "dround (Fin r) =
     Fin (if 0 \<le> r then of_int (floor (r + 1 / 2)) else - of_int (floor (- r + 1 / 2)))"
| "dround d = d"

fun dfabs :: "double \<Rightarrow> double" where
  "dfabs (Fin r) = Fin \<bar>r\<bar>"
| "dfabs NegInf = PosInf"
| "dfabs d = d"

text \<open>\<^verbatim>\<open>a - b\<close>: an infinity minus the same infinity is not a number.\<close>

fun dsub :: "double \<Rightarrow> double \<Rightarrow> double" where
  "dsub NaN b = NaN"
| "dsub a NaN = NaN"
| "dsub (Fin a) (Fin b) = Fin (a - b)"
| "dsub (Fin a) PosInf = NegInf"
| "dsub (Fin a) NegInf = PosInf"
| "dsub PosInf PosInf = NaN"
| "dsub PosInf b = PosInf"
| "dsub NegInf NegInf = NaN"
| "dsub NegInf b = NegInf"

subsection \<open>Strings\<close>

text \<open>
  \<^verbatim>\<open>s.c_str()\<close> handed to a \<^verbatim>\<open>%s\<close> conversion: the bytes up to the first NUL. \<^verbatim>\<open>StrAppend\<close>
  and \<^verbatim>\<open>+=\<close> on a \<^verbatim>\<open>std::string\<close> append all of its bytes.
\<close>

definition c_str :: "string \<Rightarrow> string" where
  "c_str s = takeWhile (\<lambda>c. c \<noteq> CHR 0x00) s"

text \<open>\<^verbatim>\<open>%-Ns\<close> pads on the right and \<^verbatim>\<open>%Ns\<close> on the left, with spaces, up to the width.\<close>

definition ljust :: "nat \<Rightarrow> string \<Rightarrow> string" where
  "ljust w s = s @ replicate (w - length s) CHR '' ''"

definition rjust :: "nat \<Rightarrow> string \<Rightarrow> string" where
  "rjust w s = replicate (w - length s) CHR '' '' @ s"

subsection \<open>Integers: \<^verbatim>\<open>%d\<close> and \<^verbatim>\<open>%0*d\<close>\<close>

definition digit_char :: "nat \<Rightarrow> char" where
  "digit_char d = ''0123456789'' ! (d mod 10)"

fun dec :: "nat \<Rightarrow> string" where
  "dec n = (if n < 10 then [digit_char n] else dec (n div 10) @ [digit_char (n mod 10)])"

declare dec.simps [simp del]

text \<open>\<^verbatim>\<open>%0*d\<close> with a width \<open>w \<ge> 0\<close> and a value \<open>n \<ge> 0\<close>: zeros on the left up to the width.\<close>

definition dec_zero_padded :: "nat \<Rightarrow> nat \<Rightarrow> string" where
  "dec_zero_padded w n = replicate (w - length (dec n)) CHR ''0'' @ dec n"

subsection \<open>Doubles: \<^verbatim>\<open>%.0f\<close> and \<^verbatim>\<open>%.PG\<close>\<close>

text \<open>Rounding to the nearest integer, halves to the even one, as \<^verbatim>\<open>printf\<close> rounds.\<close>

definition round_half_even :: "rat \<Rightarrow> int" where
  "round_half_even x =
     (let f = floor x; d = x - of_int f
      in if d < 1 / 2 then f else if 1 / 2 < d then f + 1 else if even f then f else f + 1)"

definition pow10 :: "int \<Rightarrow> rat" where
  "pow10 k = (if 0 \<le> k then 10 ^ nat k else 1 / 10 ^ nat (- k))"

text \<open>The decimal exponent of a positive rational \<open>a\<close>: the \<open>e\<close> with \<open>10^e \<le> a < 10^(e+1)\<close>.\<close>

definition dec_exp :: "rat \<Rightarrow> int" where
  "dec_exp a =
     (let (p, q) = quotient_of a
      in if q \<le> p then int (length (dec (nat (p div q)))) - 1
         else - int (length (takeWhile (\<lambda>k. p * 10 ^ k < q) [0..<Suc (length (dec (nat q)))])))"

definition strip_zeros :: "string \<Rightarrow> string" where
  "strip_zeros s = rev (dropWhile (\<lambda>c. c = CHR ''0'') (rev s))"

text \<open>The fraction after the point, with the trailing zeros removed; no point when none is left.\<close>

definition point_fraction :: "string \<Rightarrow> string" where
  "point_fraction fr = (let z = strip_zeros fr in if z = [] then [] else CHR ''.'' # z)"

text \<open>
  \<^verbatim>\<open>%.PG\<close> of a positive finite value, without its sign (C99 7.19.6.1): with \<open>X\<close> the exponent
  the value has once rounded to \<open>P\<close> significant digits, style \<^verbatim>\<open>f\<close> is used if \<open>-4 \<le> X < P\<close>
  and style \<^verbatim>\<open>E\<close> otherwise; a precision of 0 counts as 1.
\<close>

definition printf_G_pos :: "nat \<Rightarrow> rat \<Rightarrow> string" where
  "printf_G_pos prec a =
     (let P = (if prec = 0 then 1 else prec);
          e0 = dec_exp a;
          m0 = nat (round_half_even (a * pow10 (int P - 1 - e0)));
          m = (if m0 = 10 ^ P then 10 ^ (P - 1) else m0);
          X = (if m0 = 10 ^ P then e0 + 1 else e0);
          ds = dec m
      in if - 4 \<le> X \<and> X < int P then
           (if 0 \<le> X then take (nat X + 1) ds @ point_fraction (drop (nat X + 1) ds)
            else ''0'' @ point_fraction (replicate (nat (- X - 1)) CHR ''0'' @ ds))
         else take 1 ds @ point_fraction (drop 1 ds) @ ''E'' @
              (if X < 0 then ''-'' else ''+'') @
              (if \<bar>X\<bar> < 10 then ''0'' else '''') @ dec (nat \<bar>X\<bar>))"

text \<open>\<^verbatim>\<open>%.PG\<close>, and \<^verbatim>\<open>%+.PG\<close> when \<open>show_sign\<close> is set.\<close>

definition printf_G :: "bool \<Rightarrow> nat \<Rightarrow> double \<Rightarrow> string" where
  "printf_G show_sign prec v =
     (case v of
        NaN \<Rightarrow> (if show_sign then ''+'' else '''') @ ''NAN''
      | PosInf \<Rightarrow> (if show_sign then ''+'' else '''') @ ''INF''
      | NegInf \<Rightarrow> ''-INF''
      | Fin r \<Rightarrow>
          (if r < 0 then ''-'' @ printf_G_pos prec (- r)
           else (if show_sign then ''+'' else '''') @ (if r = 0 then ''0'' else printf_G_pos prec r)))"

text \<open>\<^verbatim>\<open>%.0f\<close>.\<close>

definition printf_f0 :: "double \<Rightarrow> string" where
  "printf_f0 v =
     (case v of
        NaN \<Rightarrow> ''nan''
      | PosInf \<Rightarrow> ''inf''
      | NegInf \<Rightarrow> ''-inf''
      | Fin r \<Rightarrow> (if r < 0 then ''-'' else '''') @ dec (nat (round_half_even \<bar>r\<bar>)))"

section \<open>The model and the exporter\<close>

text \<open>
  The protocol-buffer messages the exporter reads (\<^verbatim>\<open>linear_solver.pb.h\<close> is generated and
  not part of the file). An optional field is an \<open>option\<close>: \<^verbatim>\<open>has_name()\<close> is \<open>\<noteq> None\<close>,
  and \<^verbatim>\<open>name()\<close> of an unset field is the empty string. The two parallel repeated fields
  \<^verbatim>\<open>var_index\<close> and \<^verbatim>\<open>coefficient\<close> of a constraint are one list of pairs, entry \<open>i\<close> of the
  one with entry \<open>i\<close> of the other; \<^verbatim>\<open>var_index\<close> is an \<^verbatim>\<open>int32\<close> and may hold any value.
\<close>

record MPVariableProto =
  var_proto_name :: "string option"
  var_lower_bound :: double
  var_upper_bound :: double
  is_integer :: bool
  objective_coefficient :: double

record MPConstraintProto =
  ct_proto_name :: "string option"
  ct_lower_bound :: double
  ct_upper_bound :: double
  ct_terms :: "(int \<times> double) list"

record MPModelProto =
  model_name :: "string option"
  maximize :: bool
  objective_offset :: double
  variable :: "MPVariableProto list"
  constraint :: "MPConstraintProto list"

definition name_of :: "string option \<Rightarrow> string" where
  "name_of n = (case n of None \<Rightarrow> [] | Some s \<Rightarrow> s)"

text \<open>The command-line flags that change the text (\<^verbatim>\<open>lp_log_invalid_name\<close> only logs).\<close>

record flags =
  lp_shows_unused_variables :: bool
  lp_max_line_length :: int

text \<open>
  The data members of \<^verbatim>\<open>MPModelProtoExporter\<close> other than the model, which is a constant
  reference and is passed beside the state. The \<^verbatim>\<open>int\<close> members hold counts and sizes of
  strings only, so they are naturals.
\<close>

record exporter =
  num_integer_variables :: nat
  num_binary_variables :: nat
  num_continuous_variables :: nat
  num_digits_for_variables :: nat
  num_digits_for_constraints :: nat
  current_mps_column :: nat
  use_fixed_mps_format :: bool
  use_obfuscated_names :: bool
  setup_done :: bool

text \<open>The constructor.\<close>

definition new_exporter :: exporter where
  "new_exporter =
     \<lparr>num_integer_variables = 0, num_binary_variables = 0, num_continuous_variables = 0,
      num_digits_for_variables = 0, num_digits_for_constraints = 0, current_mps_column = 0,
      use_fixed_mps_format = False, use_obfuscated_names = False, setup_done = False\<rparr>"

text \<open>The two ways an export returns \<^verbatim>\<open>false\<close>.\<close>

datatype error = InvalidName | OutOfRangeReference

subsection \<open>Names\<close>

definition kForbiddenChars :: string where
  "kForbiddenChars = '' +-*/<>=:'' @ [CHR 0x5C]"

definition kForbiddenFirstChars :: string where
  "kForbiddenFirstChars = ''$.0123456789''"

definition CheckNameValidity :: "string \<Rightarrow> bool" where
  "CheckNameValidity name =
     (if name = [] then False
      else if 255 < length name then False
      else if \<exists>c \<in> set name. c \<in> set kForbiddenChars then False
      else if hd name \<in> set kForbiddenFirstChars then False
      else True)"

definition GetVariableName :: "MPModelProto \<Rightarrow> exporter \<Rightarrow> nat \<Rightarrow> string" where
  "GetVariableName m st var_index =
     (let var_proto = variable m ! var_index
      in if use_obfuscated_names st \<or> var_proto_name var_proto = None
         then ''V'' @ dec_zero_padded (num_digits_for_variables st) var_index
         else name_of (var_proto_name var_proto))"

definition GetConstraintName :: "MPModelProto \<Rightarrow> exporter \<Rightarrow> nat \<Rightarrow> string" where
  "GetConstraintName m st cst_index =
     (let ct_proto = constraint m ! cst_index
      in if use_obfuscated_names st \<or> ct_proto_name ct_proto = None
         then ''C'' @ dec_zero_padded (num_digits_for_constraints st) cst_index
         else name_of (ct_proto_name ct_proto))"

definition CheckAllNamesValidity :: "MPModelProto \<Rightarrow> exporter \<Rightarrow> bool" where
  "CheckAllNamesValidity m st =
     (list_all (\<lambda>i. CheckNameValidity (GetVariableName m st i)) [0..<length (variable m)] \<and>
      list_all (\<lambda>i. CheckNameValidity (GetConstraintName m st i)) [0..<length (constraint m)])"

subsection \<open>The comment header\<close>

definition AppendComments :: "flags \<Rightarrow> MPModelProto \<Rightarrow> exporter \<Rightarrow> string \<Rightarrow> string \<Rightarrow> string" where
  "AppendComments fl m st separator output =
     (let sep = c_str separator
      in output
         @ sep @ '' Generated by MPModelProtoExporter\<newline>''
         @ sep @ ''   '' @ ljust 16 ''Name'' @ '' : ''
             @ (if model_name m \<noteq> None then c_str (name_of (model_name m)) else ''NoName'')
             @ ''\<newline>''
         @ sep @ ''   '' @ ljust 16 ''Format'' @ '' : ''
             @ (if use_fixed_mps_format st then ''Fixed'' else ''Free'') @ ''\<newline>''
         @ sep @ ''   '' @ ljust 16 ''Constraints'' @ '' : '' @ dec (length (constraint m))
             @ ''\<newline>''
         @ sep @ ''   '' @ ljust 16 ''Variables'' @ '' : '' @ dec (length (variable m))
             @ ''\<newline>''
         @ sep @ ''     '' @ ljust 14 ''Binary'' @ '' : '' @ dec (num_binary_variables st)
             @ ''\<newline>''
         @ sep @ ''     '' @ ljust 14 ''Integer'' @ '' : '' @ dec (num_integer_variables st)
             @ ''\<newline>''
         @ sep @ ''     '' @ ljust 14 ''Continuous'' @ '' : '' @ dec (num_continuous_variables st)
             @ ''\<newline>''
         @ (if lp_shows_unused_variables fl then sep @ '' Unused variables are shown\<newline>''
            else []))"

subsection \<open>The line breaker\<close>

record LineBreaker =
  max_line_size :: int
  line_size :: int
  lb_output :: string

definition LineBreaker_new :: "int \<Rightarrow> LineBreaker" where
  "LineBreaker_new n = \<lparr>max_line_size = n, line_size = 0, lb_output = []\<rparr>"

text \<open>
  \<^verbatim>\<open>line_size_ + s.size() < max_line_size_\<close> adds an \<^verbatim>\<open>int\<close> to a \<^verbatim>\<open>size_t\<close> and compares the sum
  with an \<^verbatim>\<open>int\<close>: both sides are converted to the unsigned 64-bit type.
\<close>

definition WillFit :: "LineBreaker \<Rightarrow> string \<Rightarrow> bool" where
  "WillFit b s = ((line_size b + int (length s)) mod 2 ^ 64 < max_line_size b mod 2 ^ 64)"

definition Consume :: "int \<Rightarrow> LineBreaker \<Rightarrow> LineBreaker" where
  "Consume n b = b\<lparr>line_size := line_size b + n\<rparr>"

definition GetOutput :: "LineBreaker \<Rightarrow> string" where
  "GetOutput b = lb_output b"

definition Append :: "string \<Rightarrow> LineBreaker \<Rightarrow> LineBreaker" where
  "Append s b =
     (let b1 = b\<lparr>line_size := line_size b + int (length s)\<rparr>;
          b2 = (if max_line_size b1 < line_size b1
                then b1\<lparr>line_size := int (length s), lb_output := lb_output b1 @ ''\<newline> ''\<rparr>
                else b1)
      in b2\<lparr>lb_output := lb_output b2 @ s\<rparr>)"

subsection \<open>Terms and the classification of the variables\<close>

definition WriteLpTerm :: "MPModelProto \<Rightarrow> exporter \<Rightarrow> int \<Rightarrow> double \<Rightarrow> string option" where
  "WriteLpTerm m st var_index coefficient =
     (if var_index < 0 \<or> int (length (variable m)) \<le> var_index then None
      else if dne coefficient (Fin 0)
      then Some (printf_G True 16 coefficient @ '' ''
                 @ c_str (GetVariableName m st (nat var_index)) @ '' '')
      else Some [])"

definition IsBoolean :: "MPVariableProto \<Rightarrow> bool" where
  "IsBoolean var =
     (is_integer var \<and> deq (dceil (var_lower_bound var)) (Fin 0)
      \<and> deq (dfloor (var_upper_bound var)) (Fin 1))"

definition Setup :: "MPModelProto \<Rightarrow> exporter \<Rightarrow> exporter" where
  "Setup m st =
     (let (nb, ni) =
            fold (\<lambda>var (nb, ni).
                    if is_integer var
                    then (if IsBoolean var then (nb + 1, ni) else (nb, ni + 1))
                    else (nb, ni))
                 (variable m) (0, 0)
      in st\<lparr>num_digits_for_constraints := length (dec (length (constraint m))),
            num_digits_for_variables := length (dec (length (variable m))),
            num_binary_variables := nb,
            num_integer_variables := ni,
            num_continuous_variables := length (variable m) - nb - ni\<rparr>)"

section \<open>The LP writer\<close>

text \<open>
  The loops of \<^verbatim>\<open>ExportModelAsLpFormat\<close>, each over the indices it runs through. A loop that
  can leave the function with \<^verbatim>\<open>return false\<close> returns \<open>None\<close> (or the text written so far).
\<close>

fun lp_objective_terms ::
  "MPModelProto \<Rightarrow> exporter \<Rightarrow> flags \<Rightarrow> nat list \<Rightarrow> LineBreaker \<times> bool list
   \<Rightarrow> (LineBreaker \<times> bool list) option" where
  "lp_objective_terms m st fl [] acc = Some acc"
| "lp_objective_terms m st fl (var_index # rest) (obj_line_breaker, show_variable) =
     (let coeff = objective_coefficient (variable m ! var_index)
      in case WriteLpTerm m st (int var_index) coeff of
           None \<Rightarrow> None
         | Some trm \<Rightarrow>
             lp_objective_terms m st fl rest
               (Append trm obj_line_breaker,
                show_variable[var_index := (dne coeff (Fin 0) \<or> lp_shows_unused_variables fl)]))"

fun lp_constraint_terms ::
  "MPModelProto \<Rightarrow> exporter \<Rightarrow> flags \<Rightarrow> (int \<times> double) list \<Rightarrow> LineBreaker \<times> bool list
   \<Rightarrow> (LineBreaker \<times> bool list) option" where
  "lp_constraint_terms m st fl [] acc = Some acc"
| "lp_constraint_terms m st fl ((var_index, coeff) # rest) (line_breaker, show_variable) =
     (case WriteLpTerm m st var_index coeff of
        None \<Rightarrow> None
      | Some trm \<Rightarrow>
          lp_constraint_terms m st fl rest
            (Append trm line_breaker,
             show_variable[nat var_index := (dne coeff (Fin 0) \<or> lp_shows_unused_variables fl)]))"

text \<open>What is appended for one constraint once its terms are in the line breaker.\<close>

definition lp_constraint_relations ::
  "string \<Rightarrow> LineBreaker \<Rightarrow> double \<Rightarrow> double \<Rightarrow> string \<Rightarrow> string" where
  "lp_constraint_relations name line_breaker lb ub output =
     (if deq lb ub then
        output @ '' '' @ name @ '': ''
          @ GetOutput (Append ('' = '' @ printf_G False 16 ub @ ''\<newline>'') line_breaker)
      else
        (let output1 =
               (if dne ub PosInf then
                  (let rhs_name = name @ (if dne lb NegInf then ''_rhs'' else []);
                       relation = '' <= '' @ printf_G False 16 ub @ ''\<newline>''
                   in output @ '' '' @ rhs_name @ '': '' @ GetOutput line_breaker
                        @ (if \<not> WillFit line_breaker relation then ''\<newline> '' else [])
                        @ relation)
                else output)
         in if dne lb NegInf then
              (let lhs_name = name @ (if dne ub PosInf then ''_lhs'' else []);
                   relation = '' >= '' @ printf_G False 16 lb @ ''\<newline>''
               in output1 @ '' '' @ lhs_name @ '': '' @ GetOutput line_breaker
                    @ (if \<not> WillFit line_breaker relation then ''\<newline> '' else [])
                    @ relation)
            else output1))"

definition kNumFormattingChars :: int where
  "kNumFormattingChars = 10"

fun lp_constraints ::
  "MPModelProto \<Rightarrow> exporter \<Rightarrow> flags \<Rightarrow> nat list \<Rightarrow> string \<times> bool list
   \<Rightarrow> string + string \<times> bool list" where
  "lp_constraints m st fl [] acc = Inr acc"
| "lp_constraints m st fl (cst_index # rest) (output, show_variable) =
     (let ct_proto = constraint m ! cst_index;
          name = GetConstraintName m st cst_index;
          line_breaker = Consume (kNumFormattingChars + int (length name))
                           (LineBreaker_new (lp_max_line_length fl))
      in case lp_constraint_terms m st fl (ct_terms ct_proto) (line_breaker, show_variable) of
           None \<Rightarrow> Inl output
         | Some (line_breaker', show_variable') \<Rightarrow>
             lp_constraints m st fl rest
               (lp_constraint_relations name line_breaker'
                  (ct_lower_bound ct_proto) (ct_upper_bound ct_proto) output,
                show_variable'))"

definition lp_variable_bounds ::
  "MPModelProto \<Rightarrow> exporter \<Rightarrow> bool list \<Rightarrow> nat \<Rightarrow> string \<Rightarrow> string" where
  "lp_variable_bounds m st show_variable var_index output =
     (if \<not> show_variable ! var_index then output
      else
        (let var_proto = variable m ! var_index;
             lb = var_lower_bound var_proto;
             ub = var_upper_bound var_proto
         in if is_integer var_proto \<and> deq lb (dround lb) \<and> deq ub (dround ub) then
              output @ '' '' @ printf_f0 lb @ '' <= '' @ c_str (GetVariableName m st var_index)
                @ '' <= '' @ printf_f0 ub @ ''\<newline>''
            else
              output
                @ (if dne lb NegInf then '' '' @ printf_G False 16 lb @ '' <= '' else [])
                @ c_str (GetVariableName m st var_index)
                @ (if dne ub PosInf then '' <= '' @ printf_G False 16 ub else [])
                @ ''\<newline>''))"

definition lp_binary ::
  "MPModelProto \<Rightarrow> exporter \<Rightarrow> bool list \<Rightarrow> nat \<Rightarrow> string \<Rightarrow> string" where
  "lp_binary m st show_variable var_index output =
     (if \<not> show_variable ! var_index then output
      else if IsBoolean (variable m ! var_index)
      then output @ '' '' @ c_str (GetVariableName m st var_index) @ ''\<newline>''
      else output)"

definition lp_general ::
  "MPModelProto \<Rightarrow> exporter \<Rightarrow> bool list \<Rightarrow> nat \<Rightarrow> string \<Rightarrow> string" where
  "lp_general m st show_variable var_index output =
     (if \<not> show_variable ! var_index then output
      else if is_integer (variable m ! var_index) \<and> \<not> IsBoolean (variable m ! var_index)
      then output @ '' '' @ c_str (GetVariableName m st var_index) @ ''\<newline>''
      else output)"

text \<open>From \<^verbatim>\<open>// Bounds\<close> to the end of the function.\<close>

definition lp_sections :: "MPModelProto \<Rightarrow> exporter \<Rightarrow> bool list \<Rightarrow> string \<Rightarrow> string" where
  "lp_sections m st show_variable output =
     (let vars = [0..<length (variable m)];
          output1 = output @ ''Bounds\<newline>'';
          output2 = (if dne (objective_offset m) (Fin 0)
                     then output1 @ '' 1 <= Constant <= 1\<newline>'' else output1);
          output3 = fold (lp_variable_bounds m st show_variable) vars output2;
          output4 = (if 0 < num_binary_variables st
                     then fold (lp_binary m st show_variable) vars (output3 @ ''Binaries\<newline>'')
                     else output3);
          output5 = (if 0 < num_integer_variables st
                     then fold (lp_general m st show_variable) vars (output4 @ ''Generals\<newline>'')
                     else output4)
      in output5 @ ''End\<newline>'')"

text \<open>
  \<^verbatim>\<open>ExportModelAsLpFormat(obfuscated, output)\<close> in three parts: the statements between the
  name check and \<^verbatim>\<open>output->clear()\<close>, which change the exporter only; the rest of the
  function, which writes the text; and the function itself. Its result is the value
  returned (\<open>Inr ()\<close> for \<^verbatim>\<open>true\<close>), the exporter and \<^verbatim>\<open>*output\<close> afterwards.
\<close>

definition lp_enter :: "MPModelProto \<Rightarrow> bool \<Rightarrow> exporter \<Rightarrow> exporter" where
  "lp_enter m obfuscated st0 =
     (let st1 = (if \<not> setup_done st0 then Setup m st0 else st0)
      in st1\<lparr>setup_done := True, use_obfuscated_names := obfuscated\<rparr>)"

definition lp_write :: "flags \<Rightarrow> MPModelProto \<Rightarrow> exporter \<Rightarrow> (error + unit) \<times> exporter \<times> string" where
  "lp_write fl m st =
     (let output1 = AppendComments fl m st [CHR 0x5C] [];
          output2 = output1 @ (if maximize m then ''Maximize\<newline>'' else ''Minimize\<newline>'');
          obj_line_breaker0 = Append '' Obj: '' (LineBreaker_new (lp_max_line_length fl));
          obj_line_breaker1 =
            (if dne (objective_offset m) (Fin 0)
             then Append (printf_G True 16 (objective_offset m) @ '' Constant '')
                    obj_line_breaker0
             else obj_line_breaker0);
          show_variable0 = replicate (length (variable m)) (lp_shows_unused_variables fl)
      in case lp_objective_terms m st fl [0..<length (variable m)]
                (obj_line_breaker1, show_variable0) of
           None \<Rightarrow> (Inl OutOfRangeReference, st, output2)
         | Some (obj_line_breaker, show_variable1) \<Rightarrow>
             (let output3 = output2 @ GetOutput obj_line_breaker @ ''\<newline>Subject to\<newline>''
              in case lp_constraints m st fl [0..<length (constraint m)]
                        (output3, show_variable1) of
                   Inl output4 \<Rightarrow> (Inl OutOfRangeReference, st, output4)
                 | Inr (output4, show_variable) \<Rightarrow>
                     (Inr (), st, lp_sections m st show_variable output4)))"

definition ExportModelAsLpFormat ::
  "flags \<Rightarrow> MPModelProto \<Rightarrow> bool \<Rightarrow> exporter \<times> string \<Rightarrow> (error + unit) \<times> exporter \<times> string" where
  "ExportModelAsLpFormat fl m obfuscated = (\<lambda>(st0, output0).
     if \<not> obfuscated \<and> \<not> CheckAllNamesValidity m st0 then (Inl InvalidName, st0, output0)
     else lp_write fl m (lp_enter m obfuscated st0))"

section \<open>The MPS writer\<close>

definition kFixedMpsDoubleWidth :: nat where
  "kFixedMpsDoubleWidth = 12"

text \<open>
  The loop of \<^verbatim>\<open>AppendMpsPair\<close> that lowers the precision until the value fits the field,
  entered with the given precision. A binary64 value printed with \<^verbatim>\<open>%.1G\<close> has at most
  seven characters, so the loop of the source has ended before the precision reaches 0,
  where this recursion ends.
\<close>

fun fixed_value_str :: "nat \<Rightarrow> double \<Rightarrow> string" where
  "fixed_value_str precision v =
     (let value_str = printf_G False precision v
      in if kFixedMpsDoubleWidth < length value_str \<and> 0 < precision
         then fixed_value_str (precision - 1) v else value_str)"

declare fixed_value_str.simps [simp del]

definition AppendMpsPair :: "exporter \<Rightarrow> string \<Rightarrow> double \<Rightarrow> string \<Rightarrow> string" where
  "AppendMpsPair st name v output =
     (if use_fixed_mps_format st then
        output @ ''  '' @ ljust 8 (c_str name) @ ''  ''
          @ rjust kFixedMpsDoubleWidth (fixed_value_str kFixedMpsDoubleWidth v) @ '' ''
      else
        output @ ''  '' @ ljust 16 (c_str name) @ ''  '' @ rjust 21 (printf_G False 16 v) @ '' '')"

definition AppendMpsLineHeader :: "exporter \<Rightarrow> string \<Rightarrow> string \<Rightarrow> string \<Rightarrow> string" where
  "AppendMpsLineHeader st ident name output =
     (if use_fixed_mps_format st
      then output @ '' '' @ ljust 2 (c_str ident) @ '' '' @ ljust 8 (c_str name)
      else output @ '' '' @ ljust 2 (c_str ident) @ ''  '' @ ljust 16 (c_str name))"

definition AppendMpsLineHeaderWithNewLine ::
  "exporter \<Rightarrow> string \<Rightarrow> string \<Rightarrow> string \<Rightarrow> string" where
  "AppendMpsLineHeaderWithNewLine st ident name output =
     AppendMpsLineHeader st ident name output @ ''\<newline>''"

definition AppendNewLineIfTwoColumns :: "exporter \<times> string \<Rightarrow> exporter \<times> string" where
  "AppendNewLineIfTwoColumns = (\<lambda>(st, output).
     (let st1 = st\<lparr>current_mps_column := current_mps_column st + 1\<rparr>
      in if current_mps_column st1 = 2
         then (st1\<lparr>current_mps_column := 0\<rparr>, output @ ''\<newline>'')
         else (st1, output)))"

definition AppendMpsTermWithContext ::
  "string \<Rightarrow> string \<Rightarrow> double \<Rightarrow> exporter \<times> string \<Rightarrow> exporter \<times> string" where
  "AppendMpsTermWithContext head_name name v = (\<lambda>(st, output).
     (let output1 = (if current_mps_column st = 0
                     then AppendMpsLineHeader st [] head_name output else output)
      in AppendNewLineIfTwoColumns (st, AppendMpsPair st name v output1)))"

definition AppendMpsBound :: "exporter \<Rightarrow> string \<Rightarrow> string \<Rightarrow> double \<Rightarrow> string \<Rightarrow> string" where
  "AppendMpsBound st bound_type name v output =
     AppendMpsPair st name v (AppendMpsLineHeader st bound_type ''BOUND'' output) @ ''\<newline>''"

definition kMpsFieldSize :: nat where
  "kMpsFieldSize = 8"

definition CanUseFixedMpsFormat :: "MPModelProto \<Rightarrow> exporter \<Rightarrow> bool" where
  "CanUseFixedMpsFormat m st =
     (if use_obfuscated_names st
      then num_digits_for_constraints st < kMpsFieldSize
           \<and> num_digits_for_variables st < kMpsFieldSize
      else if \<exists>ct_proto \<in> set (constraint m). kMpsFieldSize < length (name_of (ct_proto_name ct_proto))
      then False
      else if \<exists>var_proto \<in> set (variable m). kMpsFieldSize < length (name_of (var_proto_name var_proto))
      then False
      else True)"

text \<open>The inner loop of \<^verbatim>\<open>AppendMpsColumns\<close>, over \<^verbatim>\<open>transpose[var_index]\<close>.\<close>

fun mps_column_terms ::
  "MPModelProto \<Rightarrow> string \<Rightarrow> (nat \<times> double) list \<Rightarrow> exporter \<times> string \<Rightarrow> exporter \<times> string" where
  "mps_column_terms m var_name [] acc = acc"
| "mps_column_terms m var_name ((cst_index, coeff) # rest) (st, output) =
     mps_column_terms m var_name rest
       (AppendMpsTermWithContext var_name (GetConstraintName m st cst_index) coeff (st, output))"

text \<open>The body of the outer loop of \<^verbatim>\<open>AppendMpsColumns\<close>.\<close>

definition mps_column ::
  "MPModelProto \<Rightarrow> bool \<Rightarrow> (nat \<times> double) list list \<Rightarrow> nat \<Rightarrow> exporter \<times> string
   \<Rightarrow> exporter \<times> string" where
  "mps_column m integrality transposed var_index = (\<lambda>(st, output).
     (let var_proto = variable m ! var_index
      in if is_integer var_proto \<noteq> integrality then (st, output)
         else
           (let var_name = GetVariableName m st var_index;
                s1 = (st\<lparr>current_mps_column := 0\<rparr>, output);
                s2 = (if dne (objective_coefficient var_proto) (Fin 0)
                      then AppendMpsTermWithContext var_name ''COST''
                             (objective_coefficient var_proto) s1
                      else s1);
                s3 = mps_column_terms m var_name (transposed ! var_index) s2
            in AppendNewLineIfTwoColumns s3)))"

definition AppendMpsColumns ::
  "MPModelProto \<Rightarrow> bool \<Rightarrow> (nat \<times> double) list list \<Rightarrow> exporter \<times> string
   \<Rightarrow> exporter \<times> string" where
  "AppendMpsColumns m integrality transposed = (\<lambda>(st, output).
     fold (mps_column m integrality transposed) [0..<length (variable m)]
       (st\<lparr>current_mps_column := 0\<rparr>, output))"

text \<open>The body of the loop of the ROWS section.\<close>

definition mps_row :: "MPModelProto \<Rightarrow> exporter \<Rightarrow> nat \<Rightarrow> string \<Rightarrow> string" where
  "mps_row m st cst_index rows_section =
     (let ct_proto = constraint m ! cst_index;
          lb = ct_lower_bound ct_proto;
          ub = ct_upper_bound ct_proto;
          cst_name = GetConstraintName m st cst_index
      in if deq lb ub then AppendMpsLineHeaderWithNewLine st ''E'' cst_name rows_section
         else if deq lb NegInf then AppendMpsLineHeaderWithNewLine st ''L'' cst_name rows_section
         else AppendMpsLineHeaderWithNewLine st ''G'' cst_name rows_section)"

text \<open>
  The two loops that build \<^verbatim>\<open>transpose\<close>: the inner one over the entries of a constraint,
  the outer one over the constraints. \<open>None\<close> is the \<^verbatim>\<open>return false\<close> of the range check.
\<close>

fun transpose_terms ::
  "MPModelProto \<Rightarrow> nat \<Rightarrow> (int \<times> double) list \<Rightarrow> (nat \<times> double) list list
   \<Rightarrow> (nat \<times> double) list list option" where
  "transpose_terms m cst_index [] transposed = Some transposed"
| "transpose_terms m cst_index ((var_index, coeff) # rest) transposed =
     (if var_index < 0 \<or> int (length (variable m)) \<le> var_index then None
      else transpose_terms m cst_index rest
             (if dne coeff (Fin 0)
              then transposed[nat var_index := transposed ! nat var_index @ [(cst_index, coeff)]]
              else transposed))"

fun transpose_constraints ::
  "MPModelProto \<Rightarrow> nat list \<Rightarrow> (nat \<times> double) list list \<Rightarrow> (nat \<times> double) list list option" where
  "transpose_constraints m [] transposed = Some transposed"
| "transpose_constraints m (cst_index # rest) transposed =
     (case transpose_terms m cst_index (ct_terms (constraint m ! cst_index)) transposed of
        None \<Rightarrow> None
      | Some transposed' \<Rightarrow> transpose_constraints m rest transposed')"

text \<open>The bodies of the loops of the RHS, RANGES and BOUNDS sections.\<close>

definition mps_rhs :: "MPModelProto \<Rightarrow> nat \<Rightarrow> exporter \<times> string \<Rightarrow> exporter \<times> string" where
  "mps_rhs m cst_index = (\<lambda>(st, rhs_section).
     (let ct_proto = constraint m ! cst_index;
          lb = ct_lower_bound ct_proto;
          ub = ct_upper_bound ct_proto;
          cst_name = GetConstraintName m st cst_index
      in if dne lb NegInf then AppendMpsTermWithContext ''RHS'' cst_name lb (st, rhs_section)
         else if dne ub PosInf then AppendMpsTermWithContext ''RHS'' cst_name ub (st, rhs_section)
         else (st, rhs_section)))"

definition mps_range :: "MPModelProto \<Rightarrow> nat \<Rightarrow> exporter \<times> string \<Rightarrow> exporter \<times> string" where
  "mps_range m cst_index = (\<lambda>(st, ranges_section).
     (let ct_proto = constraint m ! cst_index;
          range = dfabs (dsub (ct_upper_bound ct_proto) (ct_lower_bound ct_proto))
      in if dne range (Fin 0) \<and> dne range PosInf
         then AppendMpsTermWithContext ''RANGE'' (GetConstraintName m st cst_index) range
                (st, ranges_section)
         else (st, ranges_section)))"

definition mps_bound :: "MPModelProto \<Rightarrow> exporter \<Rightarrow> nat \<Rightarrow> string \<Rightarrow> string" where
  "mps_bound m st var_index bounds_section =
     (let var_proto = variable m ! var_index;
          lb = var_lower_bound var_proto;
          ub = var_upper_bound var_proto;
          var_name = GetVariableName m st var_index
      in if is_integer var_proto then
           (if IsBoolean var_proto then
              AppendMpsLineHeader st ''BV'' ''BOUND'' bounds_section
                @ ''  '' @ c_str var_name @ ''\<newline>''
            else
              (let b1 = (if dne lb (Fin 0) then AppendMpsBound st ''LI'' var_name lb bounds_section
                         else bounds_section)
               in if dne ub PosInf then AppendMpsBound st ''UI'' var_name ub b1 else b1))
         else
           (if deq lb NegInf \<and> deq ub PosInf then
              AppendMpsLineHeader st ''FR'' ''BOUND'' bounds_section
                @ ''  '' @ c_str var_name @ ''\<newline>''
            else if deq lb ub then AppendMpsBound st ''FX'' var_name lb bounds_section
            else
              (let b1 = (if dne lb (Fin 0) then AppendMpsBound st ''LO'' var_name lb bounds_section
                         else if deq ub PosInf then
                           AppendMpsLineHeader st ''PL'' ''BOUND'' bounds_section
                             @ ''  '' @ c_str var_name @ ''\<newline>''
                         else bounds_section)
               in if dne ub PosInf then AppendMpsBound st ''UP'' var_name ub b1 else b1)))"

text \<open>\<^verbatim>\<open>kIntMarkerFormat\<close> filled in.\<close>

definition int_marker :: "string \<Rightarrow> string \<Rightarrow> string \<Rightarrow> string" where
  "int_marker a b c = ''  '' @ ljust 10 a @ ljust 36 b @ ljust 10 c @ ''\<newline>''"

text \<open>From \<^verbatim>\<open>// COLUMNS section.\<close> to the end of \<^verbatim>\<open>ExportModelAsMpsFormat\<close>.\<close>

definition mps_sections ::
  "MPModelProto \<Rightarrow> (nat \<times> double) list list \<Rightarrow> exporter \<times> string \<Rightarrow> exporter \<times> string" where
  "mps_sections m transposed = (\<lambda>(st0, output0).
     (let csts = [0..<length (constraint m)];
          (st1, columns_section1) = AppendMpsColumns m True transposed (st0, []);
          columns_section2 =
            (if columns_section1 \<noteq> []
             then int_marker ''INTSTART'' [CHR 0x27, CHR ''M'', CHR ''A'', CHR ''R'', CHR ''K'', CHR ''E'', CHR ''R'', CHR 0x27]
                    [CHR 0x27, CHR ''I'', CHR ''N'', CHR ''T'', CHR ''O'', CHR ''R'', CHR ''G'', CHR 0x27]
                  @ columns_section1
                  @ int_marker ''INTEND'' [CHR 0x27, CHR ''M'', CHR ''A'', CHR ''R'', CHR ''K'', CHR ''E'', CHR ''R'', CHR 0x27]
                      [CHR 0x27, CHR ''I'', CHR ''N'', CHR ''T'', CHR ''E'', CHR ''N'', CHR ''D'', CHR 0x27]
             else columns_section1);
          (st2, columns_section) = AppendMpsColumns m False transposed (st1, columns_section2);
          output1 = (if columns_section \<noteq> [] then output0 @ ''COLUMNS\<newline>'' @ columns_section
                     else output0);
          (st3, rhs_section) =
            AppendNewLineIfTwoColumns (fold (mps_rhs m) csts (st2\<lparr>current_mps_column := 0\<rparr>, []));
          output2 = (if rhs_section \<noteq> [] then output1 @ ''RHS\<newline>'' @ rhs_section else output1);
          (st4, ranges_section) =
            AppendNewLineIfTwoColumns (fold (mps_range m) csts (st3\<lparr>current_mps_column := 0\<rparr>, []));
          output3 = (if ranges_section \<noteq> [] then output2 @ ''RANGES\<newline>'' @ ranges_section
                     else output2);
          st5 = st4\<lparr>current_mps_column := 0\<rparr>;
          bounds_section = fold (mps_bound m st5) [0..<length (variable m)] [];
          output4 = (if bounds_section \<noteq> [] then output3 @ ''BOUNDS\<newline>'' @ bounds_section
                     else output3)
      in (st5, output4 @ ''ENDATA\<newline>'')))"

text \<open>
  \<^verbatim>\<open>ExportModelAsMpsFormat(fixed_format, obfuscated, output)\<close>, in the same three parts.
\<close>

definition mps_enter :: "MPModelProto \<Rightarrow> bool \<Rightarrow> bool \<Rightarrow> exporter \<Rightarrow> exporter" where
  "mps_enter m fixed_format obfuscated st0 =
     (let st1 = (if \<not> setup_done st0 then Setup m st0 else st0);
          st2 = st1\<lparr>setup_done := True, use_obfuscated_names := obfuscated,
                    use_fixed_mps_format := fixed_format\<rparr>
      in if fixed_format \<and> \<not> CanUseFixedMpsFormat m st2
         then st2\<lparr>use_fixed_mps_format := False\<rparr> else st2)"

definition mps_write :: "flags \<Rightarrow> MPModelProto \<Rightarrow> exporter \<Rightarrow> (error + unit) \<times> exporter \<times> string" where
  "mps_write fl m st3 =
     (let output1 = AppendComments fl m st3 ''*'' [];
          output2 = output1 @ ljust 14 ''NAME'' @ c_str (name_of (model_name m)) @ ''\<newline>'';
          st = st3\<lparr>current_mps_column := 0\<rparr>;
          rows_section = fold (mps_row m st) [0..<length (constraint m)]
                           (AppendMpsLineHeaderWithNewLine st ''N'' ''COST'' []);
          output3 = (if rows_section \<noteq> [] then output2 @ ''ROWS\<newline>'' @ rows_section
                     else output2)
      in case transpose_constraints m [0..<length (constraint m)]
                (replicate (length (variable m)) []) of
           None \<Rightarrow> (Inl OutOfRangeReference, st, output3)
         | Some transposed \<Rightarrow>
             (case mps_sections m transposed (st, output3) of
                (st', output) \<Rightarrow> (Inr (), st', output)))"

definition ExportModelAsMpsFormat ::
  "flags \<Rightarrow> MPModelProto \<Rightarrow> bool \<Rightarrow> bool \<Rightarrow> exporter \<times> string
   \<Rightarrow> (error + unit) \<times> exporter \<times> string" where
  "ExportModelAsMpsFormat fl m fixed_format obfuscated = (\<lambda>(st0, output0).
     if \<not> obfuscated \<and> \<not> CheckAllNamesValidity m st0 then (Inl InvalidName, st0, output0)
     else mps_write fl m (mps_enter m fixed_format obfuscated st0))"

section \<open>Example inputs\<close>

definition default_flags :: flags where
  "default_flags = \<lparr>lp_shows_unused_variables = False, lp_max_line_length = 10000\<rparr>"

text \<open>
  Three variables (a continuous and an integer one fixed at 5, an integer one on
  \<open>[0, +\<infinity>)\<close>) and one constraint \<open>2 \<le> x + y \<le> 7\<close>.
\<close>

definition small_model :: MPModelProto where
  "small_model =
     \<lparr>model_name = Some ''small'', maximize = False, objective_offset = Fin 0,
      variable =
        [\<lparr>var_proto_name = Some ''x'', var_lower_bound = Fin 5, var_upper_bound = Fin 5,
          is_integer = False, objective_coefficient = Fin 1\<rparr>,
         \<lparr>var_proto_name = Some ''y'', var_lower_bound = Fin 5, var_upper_bound = Fin 5,
          is_integer = True, objective_coefficient = Fin 0\<rparr>,
         \<lparr>var_proto_name = Some ''z'', var_lower_bound = Fin 0, var_upper_bound = PosInf,
          is_integer = True, objective_coefficient = Fin 0\<rparr>],
      constraint =
        [\<lparr>ct_proto_name = Some ''c'', ct_lower_bound = Fin 2, ct_upper_bound = Fin 7,
          ct_terms = [(0, Fin 1), (1, Fin 1)]\<rparr>]\<rparr>"

text \<open>
  For the statements below: what \<^verbatim>\<open>AppendMpsPair\<close> appends when the value is rendered as \<open>s\<close>,
  and the exporter as \<^verbatim>\<open>ExportModelAsMpsFormat(true, false, ...)\<close> has it while it writes
  \<open>small_model\<close>.
\<close>

definition mps_pair_text :: "exporter \<Rightarrow> string \<Rightarrow> string \<Rightarrow> string" where
  "mps_pair_text st name s =
     (if use_fixed_mps_format st
      then ''  '' @ ljust 8 (c_str name) @ ''  '' @ rjust 12 s @ '' ''
      else ''  '' @ ljust 16 (c_str name) @ ''  '' @ rjust 21 s @ '' '')"

definition small_mps_state :: exporter where
  "small_mps_state = (mps_enter small_model True False new_exporter)\<lparr>current_mps_column := 0\<rparr>"

text \<open>
  For the statements below: the lines of a text, cut at every newline character (the part
  after the last newline is the last line).
\<close>

fun lines_of :: "string \<Rightarrow> string list" where
  "lines_of [] = [[]]"
| "lines_of (c # cs) =
     (if c = CHR ''\<newline>'' then [] # lines_of cs
      else (case lines_of cs of [] \<Rightarrow> [[c]] | l # ls \<Rightarrow> (c # l) # ls))"




text \<open>
  For the statements below: every variable index of a row, and of every row of the model, lies
  in \<open>[0, variable_size)\<close>.
\<close>

definition row_in_range :: "MPModelProto \<Rightarrow> (int \<times> double) list \<Rightarrow> bool" where
  "row_in_range m ts =
     list_all (\<lambda>(var_index, coeff). 0 \<le> var_index \<and> var_index < int (length (variable m))) ts"

definition all_references_in_range :: "MPModelProto \<Rightarrow> bool" where
  "all_references_in_range m = list_all (\<lambda>ct_proto. row_in_range m (ct_terms ct_proto)) (constraint m)"

text \<open>
  One variable \<open>x\<close> and one constraint \<open>x + 0 * (variable 1) \<ge> 1\<close>, whose second entry refers
  to a variable the model does not have, with the coefficient 0.
\<close>

definition dangling_model :: MPModelProto where
  "dangling_model =
     \<lparr>model_name = Some ''dangling'', maximize = False, objective_offset = Fin 0,
      variable =
        [\<lparr>var_proto_name = Some ''x'', var_lower_bound = Fin 0, var_upper_bound = PosInf,
          is_integer = False, objective_coefficient = Fin 1\<rparr>],
      constraint =
        [\<lparr>ct_proto_name = Some ''c'', ct_lower_bound = Fin 1, ct_upper_bound = PosInf,
          ct_terms = [(0, Fin 1), (1, Fin 0)]\<rparr>]\<rparr>"

text \<open>
  For the proofs below: a text that ends with a newline; and the two invariants of the
  sections the MPS writer builds two entries to a line. Between the entries of a section
  the exporter differs from the one the section started with in \<^verbatim>\<open>current_mps_column_\<close>
  only, that column is 0 or 1, and at column 0 the section is empty or ends with a newline;
  once \<^verbatim>\<open>AppendNewLineIfTwoColumns\<close> has closed the section, it is empty or ends with a
  newline.
\<close>

definition ends_with_newline :: "string \<Rightarrow> bool" where
  "ends_with_newline s = (s \<noteq> [] \<and> last s = CHR ''\<newline>'')"

definition mps_open_section :: "exporter \<Rightarrow> exporter \<times> string \<Rightarrow> bool" where
  "mps_open_section st0 = (\<lambda>(st, sect).
     (\<exists>c. st = st0\<lparr>current_mps_column := c\<rparr>) \<and> current_mps_column st \<le> 1
     \<and> (current_mps_column st = 0 \<and> sect \<noteq> [] \<longrightarrow> ends_with_newline sect))"

definition mps_closed_section :: "exporter \<Rightarrow> exporter \<times> string \<Rightarrow> bool" where
  "mps_closed_section st0 = (\<lambda>(st, sect).
     (\<exists>c. st = st0\<lparr>current_mps_column := c\<rparr>)
     \<and> (sect \<noteq> [] \<longrightarrow> ends_with_newline sect))"

text \<open>
  For the statements below: every name the model declares passes \<^verbatim>\<open>CheckNameValidity\<close>; and
  the exporters that can be met, starting from the constructor and calling the two exports
  on the one model \<open>m\<close> any number of times, with any arguments and flags.
\<close>

definition declared_names_valid :: "MPModelProto \<Rightarrow> bool" where
  "declared_names_valid m =
     (list_all (\<lambda>var_proto. case var_proto_name var_proto of
                               None \<Rightarrow> True | Some n \<Rightarrow> CheckNameValidity n) (variable m)
      \<and> list_all (\<lambda>ct_proto. case ct_proto_name ct_proto of
                                None \<Rightarrow> True | Some n \<Rightarrow> CheckNameValidity n) (constraint m))"

inductive reachable :: "MPModelProto \<Rightarrow> exporter \<Rightarrow> bool" for m :: MPModelProto where
  reachable_new: "reachable m new_exporter"
| reachable_lp:
    "reachable m st \<Longrightarrow>
     reachable m (fst (snd (ExportModelAsLpFormat fl m obfuscated (st, output))))"
| reachable_mps:
    "reachable m st \<Longrightarrow>
     reachable m (fst (snd (ExportModelAsMpsFormat fl m fixed_format obfuscated (st, output))))"

text \<open>
  One variable with the declared name \<open>1x\<close>, which \<^verbatim>\<open>CheckNameValidity\<close> rejects for its first
  character, and three exports of it in the LP format by one exporter: one with obfuscation,
  then two without.
\<close>

definition badly_named_model :: MPModelProto where
  "badly_named_model =
     \<lparr>model_name = Some ''bad'', maximize = False, objective_offset = Fin 0,
      variable =
        [\<lparr>var_proto_name = Some ''1x'', var_lower_bound = Fin 0, var_upper_bound = PosInf,
          is_integer = False, objective_coefficient = Fin 1\<rparr>],
      constraint = []\<rparr>"

definition obfuscated_run :: "(error + unit) \<times> exporter \<times> string" where
  "obfuscated_run = ExportModelAsLpFormat default_flags badly_named_model True (new_exporter, [])"

definition first_plain_run :: "(error + unit) \<times> exporter \<times> string" where
  "first_plain_run =
     ExportModelAsLpFormat default_flags badly_named_model False (fst (snd obfuscated_run), [])"

definition second_plain_run :: "(error + unit) \<times> exporter \<times> string" where
  "second_plain_run =
     ExportModelAsLpFormat default_flags badly_named_model False (fst (snd first_plain_run), [])"

text \<open>
  For the statements below: the parts of the text of the two exports. For the LP export,
  the loop over the objective as \<^verbatim>\<open>ExportModelAsLpFormat\<close> enters it, the text up to the line
  \<open>Subject to\<close>, the line breaker a constraint starts with, the lines of the Bounds section
  for a list of variables, and the Binaries and Generals sections. For the MPS export, the
  text up to the NAME line and each section as \<^verbatim>\<open>ExportModelAsMpsFormat\<close> builds it, a
  section being written under its title when it is not empty.
\<close>

definition lp_objective ::
  "flags \<Rightarrow> MPModelProto \<Rightarrow> exporter \<Rightarrow> (LineBreaker \<times> bool list) option" where
  "lp_objective fl m st =
     (let obj_line_breaker0 = Append '' Obj: '' (LineBreaker_new (lp_max_line_length fl));
          obj_line_breaker1 =
            (if dne (objective_offset m) (Fin 0)
             then Append (printf_G True 16 (objective_offset m) @ '' Constant '')
                    obj_line_breaker0
             else obj_line_breaker0)
      in lp_objective_terms m st fl [0..<length (variable m)]
           (obj_line_breaker1,
            replicate (length (variable m)) (lp_shows_unused_variables fl)))"

definition lp_head :: "flags \<Rightarrow> MPModelProto \<Rightarrow> exporter \<Rightarrow> LineBreaker \<Rightarrow> string" where
  "lp_head fl m st obj_line_breaker =
     AppendComments fl m st [CHR 0x5C] []
       @ (if maximize m then ''Maximize\<newline>'' else ''Minimize\<newline>'')
       @ GetOutput obj_line_breaker @ ''\<newline>Subject to\<newline>''"

definition lp_constraint_start :: "flags \<Rightarrow> MPModelProto \<Rightarrow> exporter \<Rightarrow> nat \<Rightarrow> LineBreaker" where
  "lp_constraint_start fl m st cst_index =
     Consume (kNumFormattingChars + int (length (GetConstraintName m st cst_index)))
       (LineBreaker_new (lp_max_line_length fl))"

definition lp_bounds_lines ::
  "MPModelProto \<Rightarrow> exporter \<Rightarrow> bool list \<Rightarrow> nat list \<Rightarrow> string" where
  "lp_bounds_lines m st show_variable vars = fold (lp_variable_bounds m st show_variable) vars []"

definition lp_integer_sections :: "MPModelProto \<Rightarrow> exporter \<Rightarrow> bool list \<Rightarrow> string" where
  "lp_integer_sections m st show_variable =
     (if 0 < num_binary_variables st
      then ''Binaries\<newline>''
           @ fold (lp_binary m st show_variable) [0..<length (variable m)] []
      else [])
     @ (if 0 < num_integer_variables st
        then ''Generals\<newline>''
             @ fold (lp_general m st show_variable) [0..<length (variable m)] []
        else [])"

definition titled :: "string \<Rightarrow> string \<Rightarrow> string" where
  "titled title sect = (if sect \<noteq> [] then title @ sect else [])"

definition mps_head :: "flags \<Rightarrow> MPModelProto \<Rightarrow> exporter \<Rightarrow> string" where
  "mps_head fl m st =
     AppendComments fl m st ''*'' [] @ ljust 14 ''NAME'' @ c_str (name_of (model_name m))
       @ ''\<newline>''"

definition mps_rows_section :: "MPModelProto \<Rightarrow> exporter \<Rightarrow> string" where
  "mps_rows_section m st =
     fold (mps_row m st) [0..<length (constraint m)]
       (AppendMpsLineHeaderWithNewLine st ''N'' ''COST'' [])"

definition mps_columns_section ::
  "MPModelProto \<Rightarrow> exporter \<Rightarrow> (nat \<times> double) list list \<Rightarrow> string" where
  "mps_columns_section m st transposed =
     (let columns_section1 = snd (AppendMpsColumns m True transposed (st, []));
          columns_section2 =
            (if columns_section1 \<noteq> []
             then int_marker ''INTSTART'' [CHR 0x27, CHR ''M'', CHR ''A'', CHR ''R'', CHR ''K'', CHR ''E'', CHR ''R'', CHR 0x27]
                    [CHR 0x27, CHR ''I'', CHR ''N'', CHR ''T'', CHR ''O'', CHR ''R'', CHR ''G'', CHR 0x27]
                  @ columns_section1
                  @ int_marker ''INTEND'' [CHR 0x27, CHR ''M'', CHR ''A'', CHR ''R'', CHR ''K'', CHR ''E'', CHR ''R'', CHR 0x27]
                      [CHR 0x27, CHR ''I'', CHR ''N'', CHR ''T'', CHR ''E'', CHR ''N'', CHR ''D'', CHR 0x27]
             else columns_section1)
      in snd (AppendMpsColumns m False transposed (st, columns_section2)))"

definition mps_rhs_section :: "MPModelProto \<Rightarrow> exporter \<Rightarrow> string" where
  "mps_rhs_section m st =
     snd (AppendNewLineIfTwoColumns
            (fold (mps_rhs m) [0..<length (constraint m)] (st\<lparr>current_mps_column := 0\<rparr>, [])))"

definition mps_ranges_section :: "MPModelProto \<Rightarrow> exporter \<Rightarrow> string" where
  "mps_ranges_section m st =
     snd (AppendNewLineIfTwoColumns
            (fold (mps_range m) [0..<length (constraint m)] (st\<lparr>current_mps_column := 0\<rparr>, [])))"

definition mps_bounds_section :: "MPModelProto \<Rightarrow> exporter \<Rightarrow> string" where
  "mps_bounds_section m st = fold (mps_bound m st) [0..<length (variable m)] []"

definition mps_text ::
  "flags \<Rightarrow> MPModelProto \<Rightarrow> exporter \<Rightarrow> (nat \<times> double) list list \<Rightarrow> string" where
  "mps_text fl m st transposed =
     mps_head fl m st @ ''ROWS\<newline>'' @ mps_rows_section m st
       @ titled ''COLUMNS\<newline>'' (mps_columns_section m st transposed)
       @ titled ''RHS\<newline>'' (mps_rhs_section m st)
       @ titled ''RANGES\<newline>'' (mps_ranges_section m st)
       @ titled ''BOUNDS\<newline>'' (mps_bounds_section m st)
       @ ''ENDATA\<newline>''"

section \<open>Basic facts\<close>

lemma deq_Fin [simp]: "deq a (Fin r) = (a = Fin r)" "deq (Fin r) b = (b = Fin r)"
  by (cases a; simp) (cases b; auto)

lemma deq_PosInf [simp]: "deq a PosInf = (a = PosInf)" "deq PosInf b = (b = PosInf)"
  by (cases a; simp) (cases b; auto)

lemma deq_NegInf [simp]: "deq a NegInf = (a = NegInf)" "deq NegInf b = (b = NegInf)"
  by (cases a; simp) (cases b; auto)

lemma printf_G16_5: "printf_G False 16 (Fin 5) = ''5''" by code_simp
lemma printf_f0_5: "printf_f0 (Fin 5) = ''5''" by code_simp
lemma fixed_value_str_5: "fixed_value_str kFixedMpsDoubleWidth (Fin 5) = ''5''" by code_simp
lemma dround_5: "dround (Fin 5) = Fin 5" by code_simp


lemma AppendMpsPair_5: "AppendMpsPair st name (Fin 5) output = output @ mps_pair_text st name ''5''"
  by (simp add: AppendMpsPair_def mps_pair_text_def printf_G16_5 kFixedMpsDoubleWidth_def
      fixed_value_str_5 [unfolded kFixedMpsDoubleWidth_def])

lemma not_IsBoolean_5: "var_lower_bound v = Fin 5 \<Longrightarrow> \<not> IsBoolean v"
  by (simp add: IsBoolean_def)

lemma Append_output:
  "GetOutput (Append s b) =
     GetOutput b
       @ (if max_line_size b < line_size b + int (length s) then ''\<newline> '' else []) @ s"
  by (simp add: Append_def GetOutput_def Let_def)

lemma Append_line_size:
  "line_size (Append s b) =
     (if max_line_size b < line_size b + int (length s) then int (length s)
      else line_size b + int (length s))"
  by (simp add: Append_def Let_def)

lemma Append_max_line_size [simp]: "max_line_size (Append s b) = max_line_size b"
  by (simp add: Append_def Let_def)

lemma length_dec_pos: "0 < length (dec n)"
  by (subst dec.simps) simp

lemma length_dec_le: "0 < k \<Longrightarrow> length (dec n) \<le> k \<longleftrightarrow> n < 10 ^ k"
proof (induction n arbitrary: k rule: dec.induct)
  case (1 n)
  show ?case
  proof (cases "n < 10")
    case True
    have "(10::nat) ^ 1 \<le> 10 ^ k"
      using "1.prems" by (intro power_increasing) simp_all
    then have "n < 10 ^ k" using True by simp
    moreover have "length (dec n) = 1" using True by (subst dec.simps) simp
    ultimately show ?thesis using "1.prems" by simp
  next
    case False
    have len: "length (dec n) = Suc (length (dec (n div 10)))"
      using False by (subst dec.simps) simp
    show ?thesis
    proof (cases k)
      case 0
      then show ?thesis using "1.prems" by simp
    next
      case (Suc j)
      show ?thesis
      proof (cases "j = 0")
        case True
        then show ?thesis using False Suc len length_dec_pos [of "n div 10"] by simp
      next
        case j: False
        have "length (dec (n div 10)) \<le> j \<longleftrightarrow> n div 10 < 10 ^ j"
          using "1.IH" [OF False, of j] j by simp
        moreover have "n div 10 < 10 ^ j \<longleftrightarrow> n < 10 ^ Suc j"
          by (simp add: less_mult_imp_div_less div_less_iff_less_mult mult.commute)
        ultimately show ?thesis using len Suc by simp
      qed
    qed
  qed
qed


lemma length_dec_zero_padded: "length (dec_zero_padded w n) = max w (length (dec n))"
  by (simp add: dec_zero_padded_def)



lemma Setup_digits [simp]:
  "num_digits_for_variables (Setup m st) = length (dec (length (variable m)))"
  "num_digits_for_constraints (Setup m st) = length (dec (length (constraint m)))"
  by (simp_all add: Setup_def split_def Let_def)

lemma Setup_flags [simp]:
  "use_obfuscated_names (Setup m st) = use_obfuscated_names st"
  "use_fixed_mps_format (Setup m st) = use_fixed_mps_format st"
  "setup_done (Setup m st) = setup_done st"
  "current_mps_column (Setup m st) = current_mps_column st"
  by (simp_all add: Setup_def split_def Let_def)

subsection \<open>Which exports return \<^verbatim>\<open>false\<close>\<close>

lemma WriteLpTerm_None:
  "WriteLpTerm m st var_index coeff = None \<longleftrightarrow>
     var_index < 0 \<or> int (length (variable m)) \<le> var_index"
  by (simp add: WriteLpTerm_def)

lemma lp_objective_terms_Some:
  "\<forall>i \<in> set is. i < length (variable m) \<Longrightarrow> \<exists>r. lp_objective_terms m st fl is acc = Some r"
proof (induction "is" arbitrary: acc)
  case Nil
  then show ?case by simp
next
  case (Cons i "is")
  obtain b sv where acc: "acc = (b, sv)" by (cases acc)
  have "WriteLpTerm m st (int i) (objective_coefficient (variable m ! i)) \<noteq> None"
    using Cons.prems by (simp add: WriteLpTerm_None)
  then obtain t where t: "WriteLpTerm m st (int i) (objective_coefficient (variable m ! i)) = Some t"
    by blast
  show ?case
    using Cons.IH Cons.prems by (simp add: acc t Let_def)
qed

lemma lp_constraint_terms_None:
  "lp_constraint_terms m st fl ts acc = None \<longleftrightarrow> \<not> row_in_range m ts"
proof (induction ts arbitrary: acc)
  case Nil
  then show ?case by (simp add: row_in_range_def)
next
  case (Cons t ts)
  obtain var_index coeff where t: "t = (var_index, coeff)" by (cases t)
  obtain b sv where acc: "acc = (b, sv)" by (cases acc)
  show ?case
  proof (cases "WriteLpTerm m st var_index coeff")
    case None
    then show ?thesis
      using WriteLpTerm_None [of m st var_index coeff]
      by (auto simp add: t acc row_in_range_def)
  next
    case (Some trm)
    then have "\<not> (var_index < 0 \<or> int (length (variable m)) \<le> var_index)"
      using WriteLpTerm_None [of m st var_index coeff] by simp
    then show ?thesis
      using Cons.IH Some by (simp add: t acc row_in_range_def)
  qed
qed

lemma lp_constraints_Inl:
  "(\<exists>output'. lp_constraints m st fl is acc = Inl output') \<longleftrightarrow>
     (\<exists>i \<in> set is. \<not> row_in_range m (ct_terms (constraint m ! i)))"
proof (induction "is" arbitrary: acc)
  case Nil
  then show ?case by simp
next
  case (Cons i "is")
  obtain out sv where acc: "acc = (out, sv)" by (cases acc)
  let ?b = "Consume (kNumFormattingChars + int (length (GetConstraintName m st i)))
              (LineBreaker_new (lp_max_line_length fl))"
  show ?case
  proof (cases "lp_constraint_terms m st fl (ct_terms (constraint m ! i)) (?b, sv)")
    case None
    then show ?thesis
      using lp_constraint_terms_None [of m st fl "ct_terms (constraint m ! i)" "(?b, sv)"]
      by (simp add: acc Let_def)
  next
    case (Some r)
    then have "row_in_range m (ct_terms (constraint m ! i))"
      using lp_constraint_terms_None [of m st fl "ct_terms (constraint m ! i)" "(?b, sv)"]
      by simp
    then show ?thesis
      using Cons.IH Some by (simp add: acc Let_def split: prod.split)
  qed
qed

lemma all_references_in_range_nth:
  "all_references_in_range m \<longleftrightarrow>
     \<not> (\<exists>i \<in> set [0..<length (constraint m)]. \<not> row_in_range m (ct_terms (constraint m ! i)))"
  by (auto simp add: all_references_in_range_def list_all_iff all_set_conv_all_nth)

lemma transpose_terms_None:
  "transpose_terms m cst_index ts transposed = None \<longleftrightarrow> \<not> row_in_range m ts"
proof (induction ts arbitrary: transposed)
  case Nil
  then show ?case by (simp add: row_in_range_def)
next
  case (Cons t ts)
  obtain var_index coeff where t: "t = (var_index, coeff)" by (cases t)
  show ?case
    using Cons.IH by (auto simp add: t row_in_range_def)
qed

lemma transpose_constraints_None:
  "transpose_constraints m is transposed = None \<longleftrightarrow>
     (\<exists>i \<in> set is. \<not> row_in_range m (ct_terms (constraint m ! i)))"
proof (induction "is" arbitrary: transposed)
  case Nil
  then show ?case by simp
next
  case (Cons i "is")
  show ?case
    using Cons.IH transpose_terms_None [of m i "ct_terms (constraint m ! i)" transposed]
    by (auto split: option.split)
qed

lemma lp_write_fst:
  "fst (lp_write fl m st) =
     (if all_references_in_range m then Inr () else Inl OutOfRangeReference)"
proof -
  let ?b0 = "Append '' Obj: '' (LineBreaker_new (lp_max_line_length fl))"
  let ?b1 = "if dne (objective_offset m) (Fin 0)
             then Append (printf_G True 16 (objective_offset m) @ '' Constant '') ?b0 else ?b0"
  let ?sv = "replicate (length (variable m)) (lp_shows_unused_variables fl)"
  obtain b sv where obj:
    "lp_objective_terms m st fl [0..<length (variable m)] (?b1, ?sv) = Some (b, sv)"
    using lp_objective_terms_Some [of "[0..<length (variable m)]" m st fl "(?b1, ?sv)"]
    by auto
  let ?acc = "(AppendComments fl m st [CHR 0x5C] []
               @ (if maximize m then ''Maximize\<newline>'' else ''Minimize\<newline>'')
               @ GetOutput b @ ''\<newline>Subject to\<newline>'', sv)"
  show ?thesis
  proof (cases "lp_constraints m st fl [0..<length (constraint m)] ?acc")
    case (Inl out)
    then have "\<not> all_references_in_range m"
      using lp_constraints_Inl [of m st fl "[0..<length (constraint m)]" ?acc]
      by (simp add: all_references_in_range_nth)
    then show ?thesis
      using Inl obj by (simp add: lp_write_def Let_def)
  next
    case (Inr r)
    then have "all_references_in_range m"
      using lp_constraints_Inl [of m st fl "[0..<length (constraint m)]" ?acc]
      by (simp add: all_references_in_range_nth)
    then show ?thesis
      using Inr obj by (simp add: lp_write_def Let_def split: prod.split)
  qed
qed

lemma mps_write_fst:
  "fst (mps_write fl m st) =
     (if all_references_in_range m then Inr () else Inl OutOfRangeReference)"
  using transpose_constraints_None
    [of m "[0..<length (constraint m)]" "replicate (length (variable m)) []"]
  by (auto simp add: mps_write_def Let_def all_references_in_range_nth
      split: option.split prod.split)

lemma ExportModelAsLpFormat_fst:
  "fst (ExportModelAsLpFormat fl m obfuscated (st, output)) =
     (if \<not> obfuscated \<and> \<not> CheckAllNamesValidity m st then Inl InvalidName
      else if all_references_in_range m then Inr () else Inl OutOfRangeReference)"
  by (simp add: ExportModelAsLpFormat_def lp_write_fst)

lemma ExportModelAsMpsFormat_fst:
  "fst (ExportModelAsMpsFormat fl m fixed_format obfuscated (st, output)) =
     (if \<not> obfuscated \<and> \<not> CheckAllNamesValidity m st then Inl InvalidName
      else if all_references_in_range m then Inr () else Inl OutOfRangeReference)"
  by (simp add: ExportModelAsMpsFormat_def mps_write_fst)

subsection \<open>What is in \<^verbatim>\<open>*output\<close> when an export returns\<close>

lemma AppendComments_not_empty: "AppendComments fl m st separator output \<noteq> []"
  by (simp add: AppendComments_def Let_def)

lemma lp_constraint_relations_extends:
  "\<exists>r. lp_constraint_relations name line_breaker lb ub output = output @ r"
  by (simp add: lp_constraint_relations_def Let_def)

lemma lp_constraints_extends:
  "lp_constraints m st fl is (output, sv) = Inl output' \<Longrightarrow> \<exists>r. output' = output @ r"
  "lp_constraints m st fl is (output, sv) = Inr (output', sv') \<Longrightarrow> \<exists>r. output' = output @ r"
proof (induction "is" arbitrary: "output" sv)
  case Nil
  { case 1 then show ?case by simp }
  { case 2 then show ?case by simp }
next
  case (Cons i "is")
  let ?name = "GetConstraintName m st i"
  let ?b = "Consume (kNumFormattingChars + int (length ?name))
              (LineBreaker_new (lp_max_line_length fl))"
  let ?ct = "constraint m ! i"
  { case 1
    show ?case
    proof (cases "lp_constraint_terms m st fl (ct_terms ?ct) (?b, sv)")
      case None
      then show ?thesis using "1" by (simp add: Let_def)
    next
      case (Some r)
      obtain b' sv1 where r: "r = (b', sv1)" by (cases r)
      obtain q where q: "lp_constraint_relations ?name b' (ct_lower_bound ?ct)
          (ct_upper_bound ?ct) output = output @ q"
        using lp_constraint_relations_extends by blast
      have "lp_constraints m st fl is (output @ q, sv1) = Inl output'"
        using "1" Some by (simp add: Let_def r q)
      then obtain r' where "output' = (output @ q) @ r'"
        using Cons.IH(1) by blast
      then show ?thesis by simp
    qed }
  { case 2
    show ?case
    proof (cases "lp_constraint_terms m st fl (ct_terms ?ct) (?b, sv)")
      case None
      then show ?thesis using "2" by (simp add: Let_def)
    next
      case (Some r)
      obtain b' sv1 where r: "r = (b', sv1)" by (cases r)
      obtain q where q: "lp_constraint_relations ?name b' (ct_lower_bound ?ct)
          (ct_upper_bound ?ct) output = output @ q"
        using lp_constraint_relations_extends by blast
      have "lp_constraints m st fl is (output @ q, sv1) = Inr (output', sv')"
        using "2" Some by (simp add: Let_def r q)
      then obtain r' where "output' = (output @ q) @ r'"
        using Cons.IH(2) by blast
      then show ?thesis by simp
    qed }
qed

lemma lp_write_state: "fst (snd (lp_write fl m st)) = st"
  by (simp add: lp_write_def Let_def split: option.split sum.split prod.split)

lemma lp_write_failure_output:
  assumes "fst (lp_write fl m st) \<noteq> Inr ()"
  shows "\<exists>rest. snd (snd (lp_write fl m st)) = AppendComments fl m st [CHR 0x5C] [] @ rest"
proof -
  let ?b0 = "Append '' Obj: '' (LineBreaker_new (lp_max_line_length fl))"
  let ?b1 = "if dne (objective_offset m) (Fin 0)
             then Append (printf_G True 16 (objective_offset m) @ '' Constant '') ?b0 else ?b0"
  let ?sv = "replicate (length (variable m)) (lp_shows_unused_variables fl)"
  let ?out2 = "AppendComments fl m st [CHR 0x5C] []
               @ (if maximize m then ''Maximize\<newline>'' else ''Minimize\<newline>'')"
  show ?thesis
  proof (cases "lp_objective_terms m st fl [0..<length (variable m)] (?b1, ?sv)")
    case None
    then show ?thesis by (simp add: lp_write_def Let_def)
  next
    case (Some r)
    obtain b sv where r: "r = (b, sv)" by (cases r)
    let ?acc = "(?out2 @ GetOutput b @ ''\<newline>Subject to\<newline>'', sv)"
    show ?thesis
    proof (cases "lp_constraints m st fl [0..<length (constraint m)] ?acc")
      case (Inl out)
      then obtain q where "out = (?out2 @ GetOutput b @ ''\<newline>Subject to\<newline>'') @ q"
        using lp_constraints_extends(1) by blast
      then show ?thesis
        using Inl Some by (simp add: lp_write_def Let_def r)
    next
      case (Inr p)
      obtain out sv' where "p = (out, sv')" by (cases p)
      then show ?thesis
        using assms Some Inr by (simp add: lp_write_def Let_def r)
    qed
  qed
qed

lemma mps_write_failure_output:
  assumes "fst (mps_write fl m st) \<noteq> Inr ()"
  shows "\<exists>rest. snd (snd (mps_write fl m st)) = AppendComments fl m st ''*'' [] @ rest"
proof (cases "transpose_constraints m [0..<length (constraint m)]
                (replicate (length (variable m)) [])")
  case None
  then show ?thesis by (simp add: mps_write_def Let_def)
next
  case (Some transposed)
  then have "fst (mps_write fl m st) = Inr ()"
    by (simp add: mps_write_def Let_def split: prod.split)
  then show ?thesis using assms by simp
qed

lemma not_all_references_in_range:
  assumes "ct_proto \<in> set (constraint m)" and "(var_index, coeff) \<in> set (ct_terms ct_proto)"
    and "var_index < 0 \<or> int (length (variable m)) \<le> var_index"
  shows "\<not> all_references_in_range m"
  using assms by (fastforce simp add: all_references_in_range_def row_in_range_def list_all_iff)

subsection \<open>The shape of the sections\<close>

lemma ends_with_newline_append [simp]:
  "ends_with_newline (s @ t) \<longleftrightarrow> (if t = [] then ends_with_newline s else ends_with_newline t)"
  by (simp add: ends_with_newline_def)

lemma ends_with_newline_Cons [simp]:
  "ends_with_newline (c # s) \<longleftrightarrow> (if s = [] then c = CHR ''\<newline>'' else ends_with_newline s)"
  by (simp add: ends_with_newline_def)

lemma ends_with_newline_Nil [simp]: "\<not> ends_with_newline []"
  by (simp add: ends_with_newline_def)

lemma ends_with_newline_sentinel:
  "ends_with_newline s \<Longrightarrow> \<exists>pre. s @ t = pre @ CHR ''\<newline>'' # t"
proof -
  assume "ends_with_newline s"
  then have "s = butlast s @ [CHR ''\<newline>'']"
    using append_butlast_last_id [of s] by (simp add: ends_with_newline_def)
  then have "s @ t = butlast s @ CHR ''\<newline>'' # t"
    by (metis append.assoc append_Cons append_Nil)
  then show ?thesis by blast
qed

lemma fold_invariant:
  assumes "P a" and "\<And>x a. x \<in> set xs \<Longrightarrow> P a \<Longrightarrow> P (f x a)"
  shows "P (fold f xs a)"
  using assms by (induction xs arbitrary: a) simp_all

lemma column_update_twice [simp]:
  "st\<lparr>current_mps_column := c\<rparr>\<lparr>current_mps_column := d\<rparr> = st\<lparr>current_mps_column := d\<rparr>"
  by simp

lemma AppendMpsPair_column [simp]:
  "AppendMpsPair (st\<lparr>current_mps_column := c\<rparr>) = AppendMpsPair st"
  by (simp add: AppendMpsPair_def fun_eq_iff)

lemma AppendMpsLineHeader_column [simp]:
  "AppendMpsLineHeader (st\<lparr>current_mps_column := c\<rparr>) = AppendMpsLineHeader st"
  by (simp add: AppendMpsLineHeader_def fun_eq_iff)

lemma mps_open_section_term:
  assumes "mps_open_section st0 s"
  shows "mps_open_section st0 (AppendMpsTermWithContext head_name name v s)"
proof -
  obtain st sect where s: "s = (st, sect)" by (cases s)
  have inv: "\<exists>c. st = st0\<lparr>current_mps_column := c\<rparr>" "current_mps_column st \<le> 1"
    "current_mps_column st = 0 \<and> sect \<noteq> [] \<longrightarrow> ends_with_newline sect"
    using assms by (simp_all add: mps_open_section_def s)
  obtain c where c: "st = st0\<lparr>current_mps_column := c\<rparr>"
    using inv(1) by blast
  have "c = 0 \<or> c = 1" using inv(2) c by auto
  then show ?thesis
    by (auto simp add: mps_open_section_def s c AppendMpsTermWithContext_def
        AppendNewLineIfTwoColumns_def Let_def AppendMpsPair_def)
qed

lemma mps_closed_section_newline:
  assumes "mps_open_section st0 s"
  shows "mps_closed_section st0 (AppendNewLineIfTwoColumns s)"
proof -
  obtain st sect where s: "s = (st, sect)" by (cases s)
  have inv: "\<exists>c. st = st0\<lparr>current_mps_column := c\<rparr>" "current_mps_column st \<le> 1"
    "current_mps_column st = 0 \<and> sect \<noteq> [] \<longrightarrow> ends_with_newline sect"
    using assms by (simp_all add: mps_open_section_def s)
  obtain c where c: "st = st0\<lparr>current_mps_column := c\<rparr>"
    using inv(1) by blast
  have nl: "c = 0 \<and> sect \<noteq> [] \<longrightarrow> ends_with_newline sect"
    using inv(3) c by simp
  have "c = 0 \<or> c = 1" using inv(2) c by auto
  then show ?thesis
    using nl by (auto simp add: mps_closed_section_def s c AppendNewLineIfTwoColumns_def Let_def)
qed

lemma mps_open_section_start:
  assumes "mps_closed_section st0 (st, sect)"
  shows "mps_open_section st0 (st\<lparr>current_mps_column := 0\<rparr>, sect)"
  using assms by (auto simp add: mps_closed_section_def mps_open_section_def)

lemma mps_open_section_column_terms:
  "mps_open_section st0 s \<Longrightarrow> mps_open_section st0 (mps_column_terms m var_name ts s)"
proof (induction ts arbitrary: s)
  case Nil
  then show ?case by simp
next
  case (Cons t ts)
  obtain cst_index coeff where t: "t = (cst_index, coeff)" by (cases t)
  obtain st sect where s: "s = (st, sect)" by (cases s)
  show ?case
    using Cons.IH [OF mps_open_section_term [OF Cons.prems]] by (simp add: t s)
qed

lemma mps_closed_section_column:
  assumes "mps_closed_section st0 s"
  shows "mps_closed_section st0 (mps_column m integrality transposed var_index s)"
proof -
  obtain st sect where s: "s = (st, sect)" by (cases s)
  have start: "mps_open_section st0 (st\<lparr>current_mps_column := 0\<rparr>, sect)"
    using assms by (simp add: s mps_open_section_start)
  show ?thesis
    using assms start
    by (auto simp add: s mps_column_def Let_def
        intro!: mps_closed_section_newline mps_open_section_column_terms mps_open_section_term)
qed

lemma mps_closed_section_columns:
  assumes "mps_closed_section st0 s"
  shows "mps_closed_section st0 (AppendMpsColumns m integrality transposed s)"
proof -
  obtain st sect where s: "s = (st, sect)" by (cases s)
  have "mps_closed_section st0 (st\<lparr>current_mps_column := 0\<rparr>, sect)"
    using assms by (auto simp add: s mps_closed_section_def)
  then show ?thesis
    unfolding s AppendMpsColumns_def prod.case
    by (rule fold_invariant [where P = "mps_closed_section st0"])
      (simp_all add: mps_closed_section_column)
qed

lemma mps_open_section_rhs:
  "mps_open_section st0 s \<Longrightarrow> mps_open_section st0 (mps_rhs m cst_index s)"
  by (cases s) (auto simp add: mps_rhs_def Let_def intro: mps_open_section_term)

lemma mps_open_section_range:
  "mps_open_section st0 s \<Longrightarrow> mps_open_section st0 (mps_range m cst_index s)"
  by (cases s) (auto simp add: mps_range_def Let_def intro: mps_open_section_term)

lemma mps_closed_section_empty: "mps_closed_section st0 (st0\<lparr>current_mps_column := c\<rparr>, [])"
  by (auto simp add: mps_closed_section_def)

lemma mps_bound_shape:
  "bounds_section \<noteq> [] \<longrightarrow> ends_with_newline bounds_section \<Longrightarrow>
   mps_bound m st var_index bounds_section \<noteq> [] \<longrightarrow>
     ends_with_newline (mps_bound m st var_index bounds_section)"
  by (simp add: mps_bound_def Let_def AppendMpsBound_def)

lemma mps_row_shape:
  "ends_with_newline rows_section \<Longrightarrow> ends_with_newline (mps_row m st cst_index rows_section)"
  by (simp add: mps_row_def Let_def AppendMpsLineHeaderWithNewLine_def)

lemma int_marker_shape: "ends_with_newline (int_marker a b c)"
  by (simp add: int_marker_def)

lemma mps_sections_shape:
  assumes "ends_with_newline output0"
  shows "\<exists>c pre. mps_sections m transposed (st0, output0) =
           (st0\<lparr>current_mps_column := c\<rparr>, pre @ ''\<newline>ENDATA\<newline>'')"
proof -
  let ?csts = "[0..<length (constraint m)]"
  obtain st1 cs1 where a1: "AppendMpsColumns m True transposed (st0, []) = (st1, cs1)"
    by (cases "AppendMpsColumns m True transposed (st0, [])")
  have "mps_closed_section st0 (st0, [])"
    using mps_closed_section_empty [of st0 "current_mps_column st0"] by simp
  then have i1: "mps_closed_section st0 (st1, cs1)"
    using mps_closed_section_columns [of st0 "(st0, [])" m True transposed] a1 by simp
  let ?start = "int_marker ''INTSTART''
      [CHR 0x27, CHR ''M'', CHR ''A'', CHR ''R'', CHR ''K'', CHR ''E'', CHR ''R'', CHR 0x27]
      [CHR 0x27, CHR ''I'', CHR ''N'', CHR ''T'', CHR ''O'', CHR ''R'', CHR ''G'', CHR 0x27]"
  let ?stop = "int_marker ''INTEND''
      [CHR 0x27, CHR ''M'', CHR ''A'', CHR ''R'', CHR ''K'', CHR ''E'', CHR ''R'', CHR 0x27]
      [CHR 0x27, CHR ''I'', CHR ''N'', CHR ''T'', CHR ''E'', CHR ''N'', CHR ''D'', CHR 0x27]"
  let ?cs2 = "if cs1 \<noteq> [] then ?start @ cs1 @ ?stop else cs1"
  have stop: "?stop \<noteq> []" "ends_with_newline ?stop"
    using int_marker_shape by (simp_all add: int_marker_def)
  have i2: "mps_closed_section st0 (st1, ?cs2)"
    using i1 stop by (simp add: mps_closed_section_def)
  obtain st2 cs where a2: "AppendMpsColumns m False transposed (st1, ?cs2) = (st2, cs)"
    by (cases "AppendMpsColumns m False transposed (st1, ?cs2)")
  have i3: "mps_closed_section st0 (st2, cs)"
    using mps_closed_section_columns [OF i2, of m False transposed] a2 by simp
  let ?out1 = "if cs \<noteq> [] then output0 @ ''COLUMNS\<newline>'' @ cs else output0"
  have o1: "ends_with_newline ?out1"
    using assms i3 by (simp add: mps_closed_section_def)
  obtain st3 rhs where a3:
    "AppendNewLineIfTwoColumns (fold (mps_rhs m) ?csts (st2\<lparr>current_mps_column := 0\<rparr>, [])) =
       (st3, rhs)"
    by (cases "AppendNewLineIfTwoColumns
                 (fold (mps_rhs m) ?csts (st2\<lparr>current_mps_column := 0\<rparr>, []))")
  have "mps_open_section st0 (st2\<lparr>current_mps_column := 0\<rparr>, [])"
    using i3 by (auto simp add: mps_closed_section_def mps_open_section_def)
  then have "mps_open_section st0 (fold (mps_rhs m) ?csts (st2\<lparr>current_mps_column := 0\<rparr>, []))"
    by (rule fold_invariant [where P = "mps_open_section st0"])
      (simp_all add: mps_open_section_rhs)
  then have i4: "mps_closed_section st0 (st3, rhs)"
    using mps_closed_section_newline a3 by metis
  let ?out2 = "if rhs \<noteq> [] then ?out1 @ ''RHS\<newline>'' @ rhs else ?out1"
  have o2: "ends_with_newline ?out2"
    using o1 i4 by (simp add: mps_closed_section_def)
  obtain st4 ranges where a4:
    "AppendNewLineIfTwoColumns (fold (mps_range m) ?csts (st3\<lparr>current_mps_column := 0\<rparr>, [])) =
       (st4, ranges)"
    by (cases "AppendNewLineIfTwoColumns
                 (fold (mps_range m) ?csts (st3\<lparr>current_mps_column := 0\<rparr>, []))")
  have "mps_open_section st0 (st3\<lparr>current_mps_column := 0\<rparr>, [])"
    using i4 by (auto simp add: mps_closed_section_def mps_open_section_def)
  then have "mps_open_section st0
      (fold (mps_range m) ?csts (st3\<lparr>current_mps_column := 0\<rparr>, []))"
    by (rule fold_invariant [where P = "mps_open_section st0"])
      (simp_all add: mps_open_section_range)
  then have i5: "mps_closed_section st0 (st4, ranges)"
    using mps_closed_section_newline a4 by metis
  let ?out3 = "if ranges \<noteq> [] then ?out2 @ ''RANGES\<newline>'' @ ranges else ?out2"
  have o3: "ends_with_newline ?out3"
    using o2 i5 by (simp add: mps_closed_section_def)
  let ?st5 = "st4\<lparr>current_mps_column := 0\<rparr>"
  let ?bounds = "fold (mps_bound m ?st5) [0..<length (variable m)] []"
  have b: "?bounds \<noteq> [] \<longrightarrow> ends_with_newline ?bounds"
    by (rule fold_invariant [where P = "\<lambda>s. s \<noteq> [] \<longrightarrow> ends_with_newline s"])
      (simp_all add: mps_bound_shape)
  let ?out4 = "if ?bounds \<noteq> [] then ?out3 @ ''BOUNDS\<newline>'' @ ?bounds else ?out3"
  have o4: "ends_with_newline ?out4"
    using o3 b by simp
  have st5: "?st5 = st0\<lparr>current_mps_column := 0\<rparr>"
    using i5 by (auto simp add: mps_closed_section_def)
  have res: "mps_sections m transposed (st0, output0) = (?st5, ?out4 @ ''ENDATA\<newline>'')"
    by (simp add: mps_sections_def a1 a2 a3 a4 Let_def)
  obtain pre where "?out4 @ ''ENDATA\<newline>'' = pre @ CHR ''\<newline>'' # ''ENDATA\<newline>''"
    using ends_with_newline_sentinel [OF o4] by blast
  then show ?thesis
    using res st5 by auto
qed

lemma mps_write_shape:
  "\<exists>c. fst (snd (mps_write fl m st)) = st\<lparr>current_mps_column := c\<rparr>"
  "fst (mps_write fl m st) = Inr () \<Longrightarrow>
     \<exists>pre. snd (snd (mps_write fl m st)) = pre @ ''\<newline>ENDATA\<newline>''"
proof -
  let ?st = "st\<lparr>current_mps_column := 0\<rparr>"
  let ?out2 = "AppendComments fl m st ''*'' [] @ ljust 14 ''NAME''
                 @ c_str (name_of (model_name m)) @ ''\<newline>''"
  let ?rows = "fold (mps_row m ?st) [0..<length (constraint m)]
                 (AppendMpsLineHeaderWithNewLine ?st ''N'' ''COST'' [])"
  let ?out3 = "if ?rows \<noteq> [] then ?out2 @ ''ROWS\<newline>'' @ ?rows else ?out2"
  have "ends_with_newline ?rows"
    by (rule fold_invariant [where P = ends_with_newline])
      (simp_all add: mps_row_shape AppendMpsLineHeaderWithNewLine_def)
  then have o3: "ends_with_newline ?out3"
    by simp
  have both: "(\<exists>c. fst (snd (mps_write fl m st)) = st\<lparr>current_mps_column := c\<rparr>)
      \<and> (fst (mps_write fl m st) = Inr () \<longrightarrow>
           (\<exists>pre. snd (snd (mps_write fl m st)) = pre @ ''\<newline>ENDATA\<newline>''))"
  proof (cases "transpose_constraints m [0..<length (constraint m)]
                  (replicate (length (variable m)) [])")
    case None
    then show ?thesis by (auto simp add: mps_write_def Let_def)
  next
    case (Some transposed)
    obtain c pre where "mps_sections m transposed (?st, ?out3) =
        (?st\<lparr>current_mps_column := c\<rparr>, pre @ ''\<newline>ENDATA\<newline>'')"
      using mps_sections_shape [OF o3] by blast
    then show ?thesis
      using Some by (auto simp add: mps_write_def Let_def)
  qed
  show "\<exists>c. fst (snd (mps_write fl m st)) = st\<lparr>current_mps_column := c\<rparr>"
    using both by blast
  show "fst (mps_write fl m st) = Inr () \<Longrightarrow>
     \<exists>pre. snd (snd (mps_write fl m st)) = pre @ ''\<newline>ENDATA\<newline>''"
    using both by blast
qed

lemma lp_sections_shape:
  "\<exists>pre. lp_sections m st show_variable output = pre @ ''\<newline>End\<newline>''"
proof -
  let ?vars = "[0..<length (variable m)]"
  let ?out1 = "output @ ''Bounds\<newline>''"
  let ?out2 = "if dne (objective_offset m) (Fin 0)
               then ?out1 @ '' 1 <= Constant <= 1\<newline>'' else ?out1"
  let ?out3 = "fold (lp_variable_bounds m st show_variable) ?vars ?out2"
  let ?out4 = "if 0 < num_binary_variables st
               then fold (lp_binary m st show_variable) ?vars (?out3 @ ''Binaries\<newline>'')
               else ?out3"
  let ?out5 = "if 0 < num_integer_variables st
               then fold (lp_general m st show_variable) ?vars (?out4 @ ''Generals\<newline>'')
               else ?out4"
  have o2: "ends_with_newline ?out2" by simp
  have o3: "ends_with_newline ?out3"
    by (rule fold_invariant [where P = ends_with_newline])
      (simp_all add: o2 lp_variable_bounds_def Let_def)
  have "ends_with_newline (fold (lp_binary m st show_variable) ?vars (?out3 @ ''Binaries\<newline>''))"
    by (rule fold_invariant [where P = ends_with_newline]) (simp_all add: lp_binary_def)
  then have o4: "ends_with_newline ?out4"
    using o3 by presburger
  have "ends_with_newline (fold (lp_general m st show_variable) ?vars (?out4 @ ''Generals\<newline>''))"
    by (rule fold_invariant [where P = ends_with_newline]) (simp_all add: lp_general_def)
  then have o5: "ends_with_newline ?out5"
    using o4 by presburger
  have "lp_sections m st show_variable output = ?out5 @ ''End\<newline>''"
    by (simp add: lp_sections_def Let_def)
  then show ?thesis
    using ends_with_newline_sentinel [OF o5, of "''End\<newline>''"] by simp
qed

lemma lp_write_shape:
  assumes "fst (lp_write fl m st) = Inr ()"
  shows "\<exists>pre. snd (snd (lp_write fl m st)) = pre @ ''\<newline>End\<newline>''"
proof -
  let ?b0 = "Append '' Obj: '' (LineBreaker_new (lp_max_line_length fl))"
  let ?b1 = "if dne (objective_offset m) (Fin 0)
             then Append (printf_G True 16 (objective_offset m) @ '' Constant '') ?b0 else ?b0"
  let ?sv = "replicate (length (variable m)) (lp_shows_unused_variables fl)"
  let ?out2 = "AppendComments fl m st [CHR 0x5C] []
               @ (if maximize m then ''Maximize\<newline>'' else ''Minimize\<newline>'')"
  show ?thesis
  proof (cases "lp_objective_terms m st fl [0..<length (variable m)] (?b1, ?sv)")
    case None
    then show ?thesis using assms by (simp add: lp_write_def Let_def)
  next
    case (Some r)
    obtain b sv where r: "r = (b, sv)" by (cases r)
    let ?acc = "(?out2 @ GetOutput b @ ''\<newline>Subject to\<newline>'', sv)"
    show ?thesis
    proof (cases "lp_constraints m st fl [0..<length (constraint m)] ?acc")
      case (Inl out)
      then show ?thesis
        using assms Some by (simp add: lp_write_def Let_def r)
    next
      case (Inr p)
      obtain out sv' where p: "p = (out, sv')" by (cases p)
      show ?thesis
        using Some Inr lp_sections_shape [of m st sv' out] by (simp add: lp_write_def Let_def r p)
    qed
  qed
qed

subsection \<open>Names\<close>

lemma digit_char_digit: "digit_char d \<in> set ''0123456789''"
proof -
  have "d mod 10 < length ''0123456789''" by simp
  then show ?thesis unfolding digit_char_def by (rule nth_mem)
qed

lemma set_dec: "set (dec n) \<subseteq> set ''0123456789''"
proof (induction n rule: dec.induct)
  case (1 n)
  show ?case
  proof (cases "n < 10")
    case True
    then have "dec n = [digit_char n]" by (subst dec.simps) simp
    then show ?thesis using digit_char_digit [of n] by simp
  next
    case False
    then have "dec n = dec (n div 10) @ [digit_char (n mod 10)]" by (subst dec.simps) simp
    then show ?thesis using "1.IH" [OF False] digit_char_digit [of "n mod 10"] by simp
  qed
qed

lemma set_dec_zero_padded: "set (dec_zero_padded w n) \<subseteq> set ''0123456789''"
  using set_dec [of n] by (auto simp add: dec_zero_padded_def)

lemma CheckNameValidity_synthetic:
  assumes "c = CHR ''V'' \<or> c = CHR ''C''" and "set ds \<subseteq> set ''0123456789''"
    and "length ds \<le> 254"
  shows "CheckNameValidity (c # ds)"
proof -
  have "\<not> (\<exists>x \<in> set (c # ds). x \<in> set kForbiddenChars)"
    using assms(1,2) by (auto simp add: kForbiddenChars_def)
  moreover have "hd (c # ds) \<notin> set kForbiddenFirstChars"
    using assms(1) by (auto simp add: kForbiddenFirstChars_def)
  ultimately show ?thesis
    using assms(3) unfolding CheckNameValidity_def by simp
qed

lemma length_dec_int: "n < 2 ^ 31 \<Longrightarrow> length (dec n) \<le> 10"
proof -
  assume "n < 2 ^ 31"
  then have "n < 10 ^ 10" by simp
  then show ?thesis using length_dec_le [of 10 n] by simp
qed

lemma CheckAllNamesValidity_declared:
  assumes "declared_names_valid m"
    and "num_digits_for_variables st \<le> 10" and "num_digits_for_constraints st \<le> 10"
    and "length (variable m) < 2 ^ 31" and "length (constraint m) < 2 ^ 31"
  shows "CheckAllNamesValidity m st"
proof -
  have v: "CheckNameValidity (GetVariableName m st i)" if i: "i < length (variable m)" for i
  proof (cases "use_obfuscated_names st \<or> var_proto_name (variable m ! i) = None")
    case True
    have "length (dec i) \<le> 10" using i assms(4) by (intro length_dec_int) simp
    then have "length (dec_zero_padded (num_digits_for_variables st) i) \<le> 254"
      using assms(2) by (simp add: length_dec_zero_padded)
    then show ?thesis
      using True set_dec_zero_padded CheckNameValidity_synthetic
      by (simp add: GetVariableName_def Let_def)
  next
    case False
    then obtain n where n: "var_proto_name (variable m ! i) = Some n" by auto
    have "variable m ! i \<in> set (variable m)" using i by simp
    then have "CheckNameValidity n"
      using assms(1) n by (auto simp add: declared_names_valid_def list_all_iff)
    then show ?thesis
      using False n by (simp add: GetVariableName_def Let_def name_of_def)
  qed
  have c: "CheckNameValidity (GetConstraintName m st i)" if i: "i < length (constraint m)" for i
  proof (cases "use_obfuscated_names st \<or> ct_proto_name (constraint m ! i) = None")
    case True
    have "length (dec i) \<le> 10" using i assms(5) by (intro length_dec_int) simp
    then have "length (dec_zero_padded (num_digits_for_constraints st) i) \<le> 254"
      using assms(3) by (simp add: length_dec_zero_padded)
    then show ?thesis
      using True set_dec_zero_padded CheckNameValidity_synthetic
      by (simp add: GetConstraintName_def Let_def)
  next
    case False
    then obtain n where n: "ct_proto_name (constraint m ! i) = Some n" by auto
    have "constraint m ! i \<in> set (constraint m)" using i by simp
    then have "CheckNameValidity n"
      using assms(1) n by (auto simp add: declared_names_valid_def list_all_iff)
    then show ?thesis
      using False n by (simp add: GetConstraintName_def Let_def name_of_def)
  qed
  show ?thesis
    using v c by (simp add: CheckAllNamesValidity_def list_all_iff)
qed

subsection \<open>The exporter after an export\<close>

lemma ExportModelAsLpFormat_state:
  "fst (snd (ExportModelAsLpFormat fl m obfuscated (st, output))) =
     (if \<not> obfuscated \<and> \<not> CheckAllNamesValidity m st then st else lp_enter m obfuscated st)"
  by (simp add: ExportModelAsLpFormat_def lp_write_state)

lemma ExportModelAsMpsFormat_state:
  "\<exists>c. fst (snd (ExportModelAsMpsFormat fl m fixed_format obfuscated (st, output))) =
     (if \<not> obfuscated \<and> \<not> CheckAllNamesValidity m st then st
      else (mps_enter m fixed_format obfuscated st)\<lparr>current_mps_column := c\<rparr>)"
  using mps_write_shape(1) [of fl m "mps_enter m fixed_format obfuscated st"]
  by (auto simp add: ExportModelAsMpsFormat_def)

lemma lp_enter_digits:
  "num_digits_for_variables (lp_enter m obfuscated st) =
     (if setup_done st then num_digits_for_variables st else length (dec (length (variable m))))"
  "num_digits_for_constraints (lp_enter m obfuscated st) =
     (if setup_done st then num_digits_for_constraints st
      else length (dec (length (constraint m))))"
  by (simp_all add: lp_enter_def Let_def)

lemma mps_enter_digits:
  "num_digits_for_variables (mps_enter m fixed_format obfuscated st) =
     (if setup_done st then num_digits_for_variables st else length (dec (length (variable m))))"
  "num_digits_for_constraints (mps_enter m fixed_format obfuscated st) =
     (if setup_done st then num_digits_for_constraints st
      else length (dec (length (constraint m))))"
  by (simp_all add: mps_enter_def Let_def)

lemma reachable_digits:
  assumes "reachable m st" and "length (variable m) < 2 ^ 31" and "length (constraint m) < 2 ^ 31"
  shows "num_digits_for_variables st \<le> 10 \<and> num_digits_for_constraints st \<le> 10"
  using assms(1)
proof (induction rule: reachable.induct)
  case reachable_new
  then show ?case by (simp add: new_exporter_def)
next
  case (reachable_lp st fl obfuscated out)
  then show ?case
    using length_dec_int [OF assms(2)] length_dec_int [OF assms(3)]
    by (simp add: ExportModelAsLpFormat_state lp_enter_digits)
next
  case (reachable_mps st fl fixed_format obfuscated out)
  obtain c where "fst (snd (ExportModelAsMpsFormat fl m fixed_format obfuscated (st, out))) =
     (if \<not> obfuscated \<and> \<not> CheckAllNamesValidity m st then st
      else (mps_enter m fixed_format obfuscated st)\<lparr>current_mps_column := c\<rparr>)"
    using ExportModelAsMpsFormat_state by blast
  then show ?case
    using reachable_mps.IH length_dec_int [OF assms(2)] length_dec_int [OF assms(3)]
    by (simp add: mps_enter_digits)
qed

subsection \<open>The name check and the flag of the previous export\<close>

lemma CheckAllNamesValidity_iff:
  assumes "num_digits_for_variables st \<le> 10" and "num_digits_for_constraints st \<le> 10"
    and "length (variable m) < 2 ^ 31" and "length (constraint m) < 2 ^ 31"
  shows "CheckAllNamesValidity m st \<longleftrightarrow> use_obfuscated_names st \<or> declared_names_valid m"
proof (cases "use_obfuscated_names st")
  case True
  have v: "CheckNameValidity (GetVariableName m st i)" if i: "i < length (variable m)" for i
  proof -
    have "length (dec i) \<le> 10" using i assms(3) by (intro length_dec_int) simp
    then have "length (dec_zero_padded (num_digits_for_variables st) i) \<le> 254"
      using assms(1) by (simp add: length_dec_zero_padded)
    then show ?thesis
      using True set_dec_zero_padded CheckNameValidity_synthetic
      by (simp add: GetVariableName_def Let_def)
  qed
  have c: "CheckNameValidity (GetConstraintName m st i)" if i: "i < length (constraint m)" for i
  proof -
    have "length (dec i) \<le> 10" using i assms(4) by (intro length_dec_int) simp
    then have "length (dec_zero_padded (num_digits_for_constraints st) i) \<le> 254"
      using assms(2) by (simp add: length_dec_zero_padded)
    then show ?thesis
      using True set_dec_zero_padded CheckNameValidity_synthetic
      by (simp add: GetConstraintName_def Let_def)
  qed
  show ?thesis
    using True v c by (simp add: CheckAllNamesValidity_def list_all_iff)
next
  case False
  have "declared_names_valid m" if chk: "CheckAllNamesValidity m st"
  proof -
    have v: "CheckNameValidity n"
      if mem: "var_proto \<in> set (variable m)" and nm: "var_proto_name var_proto = Some n"
      for var_proto n
    proof -
      obtain i where i: "i < length (variable m)" "variable m ! i = var_proto"
        using mem unfolding in_set_conv_nth by blast
      have "CheckNameValidity (GetVariableName m st i)"
        using chk i(1) by (simp add: CheckAllNamesValidity_def list_all_iff)
      then show ?thesis
        using False i(2) nm by (simp add: GetVariableName_def Let_def name_of_def)
    qed
    have c: "CheckNameValidity n"
      if mem: "ct_proto \<in> set (constraint m)" and nm: "ct_proto_name ct_proto = Some n"
      for ct_proto n
    proof -
      obtain i where i: "i < length (constraint m)" "constraint m ! i = ct_proto"
        using mem unfolding in_set_conv_nth by blast
      have "CheckNameValidity (GetConstraintName m st i)"
        using chk i(1) by (simp add: CheckAllNamesValidity_def list_all_iff)
      then show ?thesis
        using False i(2) nm by (simp add: GetConstraintName_def Let_def name_of_def)
    qed
    show ?thesis
      using v c by (auto simp add: declared_names_valid_def list_all_iff split: option.split)
  qed
  then show ?thesis
    using False CheckAllNamesValidity_declared [OF _ assms] by blast
qed

subsection \<open>Two exports in a row\<close>

lemma lp_enter_again:
  "lp_enter m obfuscated (lp_enter m obfuscated st) = lp_enter m obfuscated st"
  by (simp add: lp_enter_def Let_def)

lemma CanUseFixedMpsFormat_cong:
  "CanUseFixedMpsFormat m (st\<lparr>current_mps_column := c\<rparr>) = CanUseFixedMpsFormat m st"
  "CanUseFixedMpsFormat m (st\<lparr>use_fixed_mps_format := f\<rparr>) = CanUseFixedMpsFormat m st"
  "CanUseFixedMpsFormat m (st\<lparr>setup_done := d\<rparr>) = CanUseFixedMpsFormat m st"
  by (simp_all add: CanUseFixedMpsFormat_def)

lemma mps_enter_again:
  "mps_enter m fixed_format obfuscated
     ((mps_enter m fixed_format obfuscated st)\<lparr>current_mps_column := c\<rparr>) =
   (mps_enter m fixed_format obfuscated st)\<lparr>current_mps_column := c\<rparr>"
  by (simp add: mps_enter_def Let_def CanUseFixedMpsFormat_def)

lemma AppendComments_column [simp]:
  "AppendComments fl m (st\<lparr>current_mps_column := c\<rparr>) = AppendComments fl m st"
  by (simp add: AppendComments_def fun_eq_iff)

lemma mps_write_column:
  "mps_write fl m (st\<lparr>current_mps_column := c\<rparr>) = mps_write fl m st"
  by (simp add: mps_write_def)

lemma CheckAllNamesValidity_column [simp]:
  "CheckAllNamesValidity m (st\<lparr>current_mps_column := c\<rparr>) = CheckAllNamesValidity m st"
  by (simp add: CheckAllNamesValidity_def GetVariableName_def GetConstraintName_def Let_def)

text \<open>
  An export repeated at once by the same exporter, with the same arguments, returns the
  same value and text (and leaves the same exporter), provided the export before them had
  the same obfuscation flag, or none came before, or the declared names are valid.
\<close>

lemma ExportModelAsLpFormat_twice:
  assumes "reachable m st" and "length (variable m) < 2 ^ 31" and "length (constraint m) < 2 ^ 31"
    and "obfuscated \<or> \<not> use_obfuscated_names st \<or> declared_names_valid m"
  shows "ExportModelAsLpFormat fl m obfuscated
           (fst (snd (ExportModelAsLpFormat fl m obfuscated (st, output))), output) =
         ExportModelAsLpFormat fl m obfuscated (st, output)"
proof (cases "\<not> obfuscated \<and> \<not> CheckAllNamesValidity m st")
  case True
  then show ?thesis by (simp add: ExportModelAsLpFormat_def)
next
  case False
  let ?st1 = "lp_enter m obfuscated st"
  have run1: "ExportModelAsLpFormat fl m obfuscated (st, output) = lp_write fl m ?st1"
    using False by (auto simp add: ExportModelAsLpFormat_def)
  have after: "fst (snd (ExportModelAsLpFormat fl m obfuscated (st, output))) = ?st1"
    by (simp add: run1 lp_write_state)
  have "reachable m (fst (snd (ExportModelAsLpFormat fl m obfuscated (st, output))))"
    using assms(1) by (rule reachable_lp)
  then have r1: "reachable m ?st1" by (simp add: after)
  have gate: "obfuscated \<or> CheckAllNamesValidity m ?st1"
  proof (cases obfuscated)
    case True
    then show ?thesis by simp
  next
    case off: False
    then have "CheckAllNamesValidity m st" using False by simp
    then have "use_obfuscated_names st \<or> declared_names_valid m"
      using CheckAllNamesValidity_iff [of st m] reachable_digits [OF assms(1-3)] assms(2,3)
      by simp
    then have "declared_names_valid m" using assms(4) off by blast
    then show ?thesis
      using CheckAllNamesValidity_iff [of ?st1 m] reachable_digits [OF r1 assms(2,3)] assms(2,3)
      by simp
  qed
  have "ExportModelAsLpFormat fl m obfuscated (?st1, output) =
      lp_write fl m (lp_enter m obfuscated ?st1)"
    using gate by (auto simp add: ExportModelAsLpFormat_def)
  then show ?thesis
    unfolding after by (simp add: run1 lp_enter_again)
qed

lemma ExportModelAsMpsFormat_twice:
  assumes "reachable m st" and "length (variable m) < 2 ^ 31" and "length (constraint m) < 2 ^ 31"
    and "obfuscated \<or> \<not> use_obfuscated_names st \<or> declared_names_valid m"
  shows "ExportModelAsMpsFormat fl m fixed_format obfuscated
           (fst (snd (ExportModelAsMpsFormat fl m fixed_format obfuscated (st, output))), output) =
         ExportModelAsMpsFormat fl m fixed_format obfuscated (st, output)"
proof (cases "\<not> obfuscated \<and> \<not> CheckAllNamesValidity m st")
  case True
  then show ?thesis by (simp add: ExportModelAsMpsFormat_def)
next
  case False
  let ?st1 = "mps_enter m fixed_format obfuscated st"
  have run1: "ExportModelAsMpsFormat fl m fixed_format obfuscated (st, output) =
      mps_write fl m ?st1"
    using False by (auto simp add: ExportModelAsMpsFormat_def)
  obtain c where after:
    "fst (snd (ExportModelAsMpsFormat fl m fixed_format obfuscated (st, output))) =
       ?st1\<lparr>current_mps_column := c\<rparr>"
    using mps_write_shape(1) [of fl m ?st1] by (auto simp add: run1)
  have "reachable m (fst (snd (ExportModelAsMpsFormat fl m fixed_format obfuscated (st, output))))"
    using assms(1) by (rule reachable_mps)
  then have r1: "reachable m (?st1\<lparr>current_mps_column := c\<rparr>)" by (simp add: after)
  have gate: "obfuscated \<or> CheckAllNamesValidity m (?st1\<lparr>current_mps_column := c\<rparr>)"
  proof (cases obfuscated)
    case True
    then show ?thesis by simp
  next
    case off: False
    then have "CheckAllNamesValidity m st" using False by simp
    then have "use_obfuscated_names st \<or> declared_names_valid m"
      using CheckAllNamesValidity_iff [of st m] reachable_digits [OF assms(1-3)] assms(2,3)
      by simp
    then have "declared_names_valid m" using assms(4) off by blast
    then show ?thesis
      using CheckAllNamesValidity_iff [of "?st1\<lparr>current_mps_column := c\<rparr>" m]
        reachable_digits [OF r1 assms(2,3)] assms(2,3)
      by simp
  qed
  have "ExportModelAsMpsFormat fl m fixed_format obfuscated
        (?st1\<lparr>current_mps_column := c\<rparr>, output) =
      mps_write fl m (mps_enter m fixed_format obfuscated (?st1\<lparr>current_mps_column := c\<rparr>))"
    using gate by (auto simp add: ExportModelAsMpsFormat_def)
  then show ?thesis
    unfolding after by (simp add: run1 mps_enter_again mps_write_column)
qed

subsection \<open>The text of the MPS export, section by section\<close>

lemma GetVariableName_column [simp]:
  "GetVariableName m (st\<lparr>current_mps_column := c\<rparr>) = GetVariableName m st"
  by (simp add: GetVariableName_def fun_eq_iff Let_def)

lemma GetConstraintName_column [simp]:
  "GetConstraintName m (st\<lparr>current_mps_column := c\<rparr>) = GetConstraintName m st"
  by (simp add: GetConstraintName_def fun_eq_iff Let_def)

lemma mps_row_column [simp]: "mps_row m (st\<lparr>current_mps_column := c\<rparr>) = mps_row m st"
  by (simp add: mps_row_def fun_eq_iff AppendMpsLineHeaderWithNewLine_def Let_def)

lemma mps_bound_column [simp]: "mps_bound m (st\<lparr>current_mps_column := c\<rparr>) = mps_bound m st"
  by (simp add: mps_bound_def fun_eq_iff AppendMpsBound_def Let_def)

lemma AppendMpsColumns_column [simp]:
  "AppendMpsColumns m integrality transposed (st\<lparr>current_mps_column := c\<rparr>, sect) =
     AppendMpsColumns m integrality transposed (st, sect)"
  by (simp add: AppendMpsColumns_def)

lemma mps_rows_section_not_empty: "mps_rows_section m st \<noteq> []"
proof -
  have "ends_with_newline (mps_rows_section m st)"
    unfolding mps_rows_section_def
    by (rule fold_invariant [where P = ends_with_newline])
      (simp_all add: mps_row_shape AppendMpsLineHeaderWithNewLine_def)
  then show ?thesis by auto
qed

lemma mps_sections_text:
  "mps_sections m transposed (st, output0) =
     (st\<lparr>current_mps_column := 0\<rparr>,
      output0
        @ titled ''COLUMNS\<newline>'' (mps_columns_section m st transposed)
        @ titled ''RHS\<newline>'' (mps_rhs_section m st)
        @ titled ''RANGES\<newline>'' (mps_ranges_section m st)
        @ titled ''BOUNDS\<newline>'' (mps_bounds_section m st)
        @ ''ENDATA\<newline>'')"
proof -
  let ?csts = "[0..<length (constraint m)]"
  obtain st1 cs1 where a1: "AppendMpsColumns m True transposed (st, []) = (st1, cs1)"
    by (cases "AppendMpsColumns m True transposed (st, [])")
  have "mps_closed_section st (st, [])"
    using mps_closed_section_empty [of st "current_mps_column st"] by simp
  then have "mps_closed_section st (st1, cs1)"
    using mps_closed_section_columns [of st "(st, [])" m True transposed] a1 by simp
  then obtain c1 where st1: "st1 = st\<lparr>current_mps_column := c1\<rparr>"
    by (auto simp add: mps_closed_section_def)
  let ?cs2 = "if cs1 \<noteq> []
      then int_marker ''INTSTART''
             [CHR 0x27, CHR ''M'', CHR ''A'', CHR ''R'', CHR ''K'', CHR ''E'', CHR ''R'', CHR 0x27]
             [CHR 0x27, CHR ''I'', CHR ''N'', CHR ''T'', CHR ''O'', CHR ''R'', CHR ''G'', CHR 0x27]
           @ cs1
           @ int_marker ''INTEND''
               [CHR 0x27, CHR ''M'', CHR ''A'', CHR ''R'', CHR ''K'', CHR ''E'', CHR ''R'', CHR 0x27]
               [CHR 0x27, CHR ''I'', CHR ''N'', CHR ''T'', CHR ''E'', CHR ''N'', CHR ''D'', CHR 0x27]
      else cs1"
  obtain st2 cs where a2: "AppendMpsColumns m False transposed (st1, ?cs2) = (st2, cs)"
    by (cases "AppendMpsColumns m False transposed (st1, ?cs2)")
  have "mps_closed_section st (st1, ?cs2)"
    by (auto simp add: mps_closed_section_def st1 int_marker_def)
  then have "mps_closed_section st (st2, cs)"
    using mps_closed_section_columns [of st "(st1, ?cs2)" m False transposed] a2 by simp
  then obtain c2 where st2: "st2 = st\<lparr>current_mps_column := c2\<rparr>"
    by (auto simp add: mps_closed_section_def)
  have cols: "cs = mps_columns_section m st transposed"
    using a1 a2 by (simp add: mps_columns_section_def st1 Let_def)
  obtain st3 rhs where a3:
    "AppendNewLineIfTwoColumns (fold (mps_rhs m) ?csts (st2\<lparr>current_mps_column := 0\<rparr>, [])) =
       (st3, rhs)"
    by (cases "AppendNewLineIfTwoColumns
                 (fold (mps_rhs m) ?csts (st2\<lparr>current_mps_column := 0\<rparr>, []))")
  have "mps_open_section st (st2\<lparr>current_mps_column := 0\<rparr>, [])"
    by (auto simp add: mps_open_section_def st2)
  then have "mps_open_section st (fold (mps_rhs m) ?csts (st2\<lparr>current_mps_column := 0\<rparr>, []))"
    by (rule fold_invariant [where P = "mps_open_section st"])
      (simp_all add: mps_open_section_rhs)
  then have "mps_closed_section st (st3, rhs)"
    using mps_closed_section_newline a3 by metis
  then obtain c3 where st3: "st3 = st\<lparr>current_mps_column := c3\<rparr>"
    by (auto simp add: mps_closed_section_def)
  have rhs: "rhs = mps_rhs_section m st"
    using a3 by (simp add: mps_rhs_section_def st2)
  obtain st4 ranges where a4:
    "AppendNewLineIfTwoColumns (fold (mps_range m) ?csts (st3\<lparr>current_mps_column := 0\<rparr>, [])) =
       (st4, ranges)"
    by (cases "AppendNewLineIfTwoColumns
                 (fold (mps_range m) ?csts (st3\<lparr>current_mps_column := 0\<rparr>, []))")
  have "mps_open_section st (st3\<lparr>current_mps_column := 0\<rparr>, [])"
    by (auto simp add: mps_open_section_def st3)
  then have "mps_open_section st
      (fold (mps_range m) ?csts (st3\<lparr>current_mps_column := 0\<rparr>, []))"
    by (rule fold_invariant [where P = "mps_open_section st"])
      (simp_all add: mps_open_section_range)
  then have "mps_closed_section st (st4, ranges)"
    using mps_closed_section_newline a4 by metis
  then obtain c4 where st4: "st4 = st\<lparr>current_mps_column := c4\<rparr>"
    by (auto simp add: mps_closed_section_def)
  have ranges: "ranges = mps_ranges_section m st"
    using a4 by (simp add: mps_ranges_section_def st3)
  have bounds: "fold (mps_bound m (st4\<lparr>current_mps_column := 0\<rparr>)) [0..<length (variable m)] [] =
      mps_bounds_section m st"
    by (simp add: mps_bounds_section_def st4)
  have "mps_sections m transposed (st, output0) =
      (st4\<lparr>current_mps_column := 0\<rparr>,
       (let output1 = (if cs \<noteq> [] then output0 @ ''COLUMNS\<newline>'' @ cs else output0);
            output2 = (if rhs \<noteq> [] then output1 @ ''RHS\<newline>'' @ rhs else output1);
            output3 = (if ranges \<noteq> [] then output2 @ ''RANGES\<newline>'' @ ranges else output2);
            bounds_section = fold (mps_bound m (st4\<lparr>current_mps_column := 0\<rparr>))
                               [0..<length (variable m)] []
        in (if bounds_section \<noteq> [] then output3 @ ''BOUNDS\<newline>'' @ bounds_section
            else output3) @ ''ENDATA\<newline>''))"
    by (simp add: mps_sections_def a1 a2 a3 a4 Let_def)
  then show ?thesis
    unfolding bounds by (simp add: cols rhs ranges st4 titled_def Let_def)
qed

lemma mps_write_text:
  "mps_write fl m st =
     (case transpose_constraints m [0..<length (constraint m)]
             (replicate (length (variable m)) []) of
        None \<Rightarrow>
          (Inl OutOfRangeReference, st\<lparr>current_mps_column := 0\<rparr>,
           mps_head fl m (st\<lparr>current_mps_column := 0\<rparr>) @ ''ROWS\<newline>''
             @ mps_rows_section m (st\<lparr>current_mps_column := 0\<rparr>))
      | Some transposed \<Rightarrow>
          (Inr (), st\<lparr>current_mps_column := 0\<rparr>,
           mps_text fl m (st\<lparr>current_mps_column := 0\<rparr>) transposed))"
proof -
  let ?S = "st\<lparr>current_mps_column := 0\<rparr>"
  have rows: "fold (mps_row m ?S) [0..<length (constraint m)]
      (AppendMpsLineHeaderWithNewLine ?S ''N'' ''COST'' []) = mps_rows_section m ?S"
    by (simp add: mps_rows_section_def)
  have head: "AppendComments fl m st ''*'' [] @ ljust 14 ''NAME''
      @ c_str (name_of (model_name m)) @ ''\<newline>'' = mps_head fl m ?S"
    by (simp add: mps_head_def)
  have "mps_write fl m st =
      (case transpose_constraints m [0..<length (constraint m)]
              (replicate (length (variable m)) []) of
         None \<Rightarrow> (Inl OutOfRangeReference, ?S,
                   mps_head fl m ?S @ ''ROWS\<newline>'' @ mps_rows_section m ?S)
       | Some transposed \<Rightarrow>
           (case mps_sections m transposed
                   (?S, mps_head fl m ?S @ ''ROWS\<newline>'' @ mps_rows_section m ?S) of
              (st', output) \<Rightarrow> (Inr (), st', output)))"
    unfolding mps_write_def Let_def rows head
    using mps_rows_section_not_empty [of m ?S] by simp
  then show ?thesis
    by (simp add: mps_sections_text mps_text_def split: option.split)
qed

subsection \<open>The text of the LP export, part by part\<close>

lemma upt_split: "i < n \<Longrightarrow> [0..<n] = [0..<i] @ i # [Suc i..<n]"
  by (metis less_imp_add_positive upt_add_eq_append upt_conv_Cons zero_le add.left_neutral
      less_eq_nat.simps(1))

lemma fold_upt_split: "i < n \<Longrightarrow> fold f [0..<n] a = fold f [Suc i..<n] (f i (fold f [0..<i] a))"
  by (simp add: upt_split [of i n])

lemma fold_append_hom:
  assumes "\<And>x a. f x a = a @ f x []"
  shows "fold f xs a = a @ fold f xs []"
proof (induction xs arbitrary: a)
  case Nil
  then show ?case by simp
next
  case (Cons x xs)
  have "fold f (x # xs) a = f x a @ fold f xs []"
    using Cons.IH [of "f x a"] by simp
  also have "\<dots> = a @ f x [] @ fold f xs []"
    using assms [of x a] by simp
  also have "\<dots> = a @ fold f (x # xs) []"
    using Cons.IH [of "f x []"] by simp
  finally show ?case .
qed

lemma lp_variable_bounds_hom:
  "lp_variable_bounds m st show_variable i a = a @ lp_variable_bounds m st show_variable i []"
  by (simp add: lp_variable_bounds_def Let_def)

lemma lp_binary_hom: "lp_binary m st show_variable i a = a @ lp_binary m st show_variable i []"
  by (simp add: lp_binary_def)

lemma lp_general_hom: "lp_general m st show_variable i a = a @ lp_general m st show_variable i []"
  by (simp add: lp_general_def)

lemma lp_sections_text:
  "lp_sections m st show_variable output =
     output @ ''Bounds\<newline>''
       @ (if dne (objective_offset m) (Fin 0) then '' 1 <= Constant <= 1\<newline>'' else [])
       @ lp_bounds_lines m st show_variable [0..<length (variable m)]
       @ lp_integer_sections m st show_variable @ ''End\<newline>''"
proof -
  have b: "fold (lp_variable_bounds m st show_variable) xs a =
      a @ fold (lp_variable_bounds m st show_variable) xs []" for xs a
    by (rule fold_append_hom) (rule lp_variable_bounds_hom)
  have i: "fold (lp_binary m st show_variable) xs a =
      a @ fold (lp_binary m st show_variable) xs []" for xs a
    by (rule fold_append_hom) (rule lp_binary_hom)
  have g: "fold (lp_general m st show_variable) xs a =
      a @ fold (lp_general m st show_variable) xs []" for xs a
    by (rule fold_append_hom) (rule lp_general_hom)
  let ?vars = "[0..<length (variable m)]"
  let ?out2 = "output @ ''Bounds\<newline>''
      @ (if dne (objective_offset m) (Fin 0) then '' 1 <= Constant <= 1\<newline>'' else [])"
  let ?out3 = "?out2 @ lp_bounds_lines m st show_variable ?vars"
  let ?bin = "if 0 < num_binary_variables st
      then ''Binaries\<newline>'' @ fold (lp_binary m st show_variable) ?vars [] else []"
  let ?gen = "if 0 < num_integer_variables st
      then ''Generals\<newline>'' @ fold (lp_general m st show_variable) ?vars [] else []"
  have o3: "fold (lp_variable_bounds m st show_variable) ?vars ?out2 = ?out3"
    using b [of ?vars ?out2] by (simp add: lp_bounds_lines_def)
  have o4: "(if 0 < num_binary_variables st
             then fold (lp_binary m st show_variable) ?vars (?out3 @ ''Binaries\<newline>'')
             else ?out3) = ?out3 @ ?bin"
    using i [of ?vars "?out3 @ ''Binaries\<newline>''"] by simp
  have o5: "(if 0 < num_integer_variables st
             then fold (lp_general m st show_variable) ?vars ((?out3 @ ?bin) @ ''Generals\<newline>'')
             else ?out3 @ ?bin) = (?out3 @ ?bin) @ ?gen"
    using g [of ?vars "(?out3 @ ?bin) @ ''Generals\<newline>''"] by simp
  have "lp_sections m st show_variable output =
      (if 0 < num_integer_variables st
       then fold (lp_general m st show_variable) ?vars
              ((if 0 < num_binary_variables st
                then fold (lp_binary m st show_variable) ?vars
                       (fold (lp_variable_bounds m st show_variable) ?vars ?out2
                          @ ''Binaries\<newline>'')
                else fold (lp_variable_bounds m st show_variable) ?vars ?out2)
               @ ''Generals\<newline>'')
       else (if 0 < num_binary_variables st
             then fold (lp_binary m st show_variable) ?vars
                    (fold (lp_variable_bounds m st show_variable) ?vars ?out2
                       @ ''Binaries\<newline>'')
             else fold (lp_variable_bounds m st show_variable) ?vars ?out2))
      @ ''End\<newline>''"
    by (simp add: lp_sections_def Let_def)
  also have "\<dots> = ((?out3 @ ?bin) @ ?gen) @ ''End\<newline>''"
    unfolding o3 o4 o5 ..
  finally show ?thesis
    by (simp add: lp_integer_sections_def)
qed

lemma lp_bounds_lines_split:
  assumes "i < n"
  shows "lp_bounds_lines m st show_variable [0..<n] =
           lp_bounds_lines m st show_variable [0..<i]
             @ lp_variable_bounds m st show_variable i []
             @ lp_bounds_lines m st show_variable [Suc i..<n]"
proof -
  let ?f = "lp_variable_bounds m st show_variable"
  have "fold ?f [0..<n] [] = fold ?f [Suc i..<n] (?f i (fold ?f [0..<i] []))"
    by (rule fold_upt_split [OF assms])
  also have "\<dots> = ?f i (fold ?f [0..<i] []) @ fold ?f [Suc i..<n] []"
    by (rule fold_append_hom) (rule lp_variable_bounds_hom)
  also have "?f i (fold ?f [0..<i] []) = fold ?f [0..<i] [] @ ?f i []"
    by (rule lp_variable_bounds_hom)
  finally show ?thesis
    unfolding lp_bounds_lines_def by simp
qed

lemma lp_write_cases:
  "lp_write fl m st =
     (case lp_objective fl m st of
        None \<Rightarrow>
          (Inl OutOfRangeReference, st,
           AppendComments fl m st [CHR 0x5C] []
             @ (if maximize m then ''Maximize\<newline>'' else ''Minimize\<newline>''))
      | Some (obj_line_breaker, show_variable1) \<Rightarrow>
          (case lp_constraints m st fl [0..<length (constraint m)]
                  (lp_head fl m st obj_line_breaker, show_variable1) of
             Inl output4 \<Rightarrow> (Inl OutOfRangeReference, st, output4)
           | Inr (output4, show_variable) \<Rightarrow>
               (Inr (), st, lp_sections m st show_variable output4)))"
  by (simp add: lp_write_def lp_objective_def lp_head_def Let_def split: option.split prod.split)

lemma lp_objective_Some: "\<exists>b sv. lp_objective fl m st = Some (b, sv)"
  using lp_objective_terms_Some [of "[0..<length (variable m)]" m st fl]
  by (simp add: lp_objective_def Let_def)

lemma lp_constraints_append:
  "lp_constraints m st fl (xs @ ys) acc =
     (case lp_constraints m st fl xs acc of
        Inl out \<Rightarrow> Inl out
      | Inr acc' \<Rightarrow> lp_constraints m st fl ys acc')"
proof (induction xs arbitrary: acc)
  case Nil
  then show ?case by simp
next
  case (Cons x xs)
  obtain out sv where acc: "acc = (out, sv)" by (cases acc)
  show ?case
    using Cons.IH by (simp add: acc Let_def split: option.split prod.split)
qed

lemma lp_constraints_in_range:
  assumes "\<forall>j \<in> set is. row_in_range m (ct_terms (constraint m ! j))"
  shows "\<exists>out sv. lp_constraints m st fl is acc = Inr (out, sv)"
proof (cases "lp_constraints m st fl is acc")
  case (Inl out)
  then show ?thesis
    using lp_constraints_Inl [of m st fl "is" acc] assms by auto
next
  case (Inr r)
  then show ?thesis by (cases r) simp
qed

lemma lp_constraint_terms_in_range:
  assumes "row_in_range m ts"
  shows "\<exists>b sv. lp_constraint_terms m st fl ts acc = Some (b, sv)"
  using assms lp_constraint_terms_None [of m st fl ts acc]
  by (cases "lp_constraint_terms m st fl ts acc") auto

lemma first_row_out_of_range:
  assumes "\<not> all_references_in_range m"
  shows "\<exists>k < length (constraint m).
           \<not> row_in_range m (ct_terms (constraint m ! k))
           \<and> (\<forall>j < k. row_in_range m (ct_terms (constraint m ! j)))"
proof -
  let ?bad = "\<lambda>k. k < length (constraint m) \<and> \<not> row_in_range m (ct_terms (constraint m ! k))"
  have ex: "\<exists>k. ?bad k"
    using assms by (auto simp add: all_references_in_range_nth)
  define k where "k = (LEAST k. ?bad k)"
  have k: "?bad k" unfolding k_def using ex by (rule LeastI_ex)
  have "row_in_range m (ct_terms (constraint m ! j))" if "j < k" for j
  proof (rule ccontr)
    assume "\<not> row_in_range m (ct_terms (constraint m ! j))"
    then have "?bad j" using that k by simp
    then have "k \<le> j" unfolding k_def by (rule Least_le)
    then show False using that by simp
  qed
  then show ?thesis using k by blast
qed

lemma lp_constraints_stop:
  assumes "k < n" and "\<not> row_in_range m (ct_terms (constraint m ! k))"
    and "lp_constraints m st fl [0..<k] acc = Inr (out, sv)"
  shows "lp_constraints m st fl [0..<n] acc = Inl out"
proof -
  have "lp_constraint_terms m st fl (ct_terms (constraint m ! k))
      (lp_constraint_start fl m st k, sv) = None"
    using assms(2) by (simp add: lp_constraint_terms_None)
  then have "lp_constraints m st fl (k # [Suc k..<n]) (out, sv) = Inl out"
    by (simp add: lp_constraint_start_def Let_def)
  then show ?thesis
    using assms(3) by (simp add: upt_split [OF assms(1)] lp_constraints_append)
qed

lemma lp_constraints_pass:
  assumes "i < n" and "lp_constraints m st fl [0..<n] acc = Inr (out, sv)"
  shows "\<exists>out_i sv_i line_breaker sv_i' rest.
           lp_constraints m st fl [0..<i] acc = Inr (out_i, sv_i)
           \<and> lp_constraint_terms m st fl (ct_terms (constraint m ! i))
                 (lp_constraint_start fl m st i, sv_i) = Some (line_breaker, sv_i')
           \<and> out = lp_constraint_relations (GetConstraintName m st i) line_breaker
                      (ct_lower_bound (constraint m ! i)) (ct_upper_bound (constraint m ! i))
                      out_i @ rest"
proof -
  have whole: "lp_constraints m st fl ([0..<i] @ i # [Suc i..<n]) acc = Inr (out, sv)"
    using assms by (simp add: upt_split [OF assms(1), symmetric])
  show ?thesis
  proof (cases "lp_constraints m st fl [0..<i] acc")
    case (Inl o1)
    then show ?thesis using whole by (simp add: lp_constraints_append)
  next
    case (Inr r)
    obtain out_i sv_i where r: "r = (out_i, sv_i)" by (cases r)
    have step: "lp_constraints m st fl (i # [Suc i..<n]) (out_i, sv_i) = Inr (out, sv)"
      using whole Inr by (simp add: lp_constraints_append r)
    show ?thesis
    proof (cases "lp_constraint_terms m st fl (ct_terms (constraint m ! i))
                    (lp_constraint_start fl m st i, sv_i)")
      case None
      then show ?thesis using step by (simp add: lp_constraint_start_def Let_def)
    next
      case (Some q)
      obtain line_breaker sv_i' where q: "q = (line_breaker, sv_i')" by (cases q)
      let ?o = "lp_constraint_relations (GetConstraintName m st i) line_breaker
                  (ct_lower_bound (constraint m ! i)) (ct_upper_bound (constraint m ! i)) out_i"
      have "lp_constraints m st fl [Suc i..<n] (?o, sv_i') = Inr (out, sv)"
        using step Some by (simp add: lp_constraint_start_def Let_def q)
      then obtain rest where "out = ?o @ rest"
        using lp_constraints_extends(2) by blast
      then show ?thesis using Inr Some by (auto simp add: r q)
    qed
  qed
qed

subsection \<open>One variable or constraint within a section\<close>

lemma mps_bound_hom: "mps_bound m st i a = a @ mps_bound m st i []"
  by (simp add: mps_bound_def Let_def AppendMpsBound_def AppendMpsPair_def AppendMpsLineHeader_def)


lemma mps_bounds_section_split:
  assumes "i < length (variable m)"
  shows "mps_bounds_section m st =
           fold (mps_bound m st) [0..<i] [] @ mps_bound m st i []
             @ fold (mps_bound m st) [Suc i..<length (variable m)] []"
proof -
  let ?f = "mps_bound m st" and ?n = "length (variable m)"
  have "fold ?f [0..<?n] [] = fold ?f [Suc i..<?n] (?f i (fold ?f [0..<i] []))"
    by (rule fold_upt_split [OF assms])
  also have "\<dots> = ?f i (fold ?f [0..<i] []) @ fold ?f [Suc i..<?n] []"
    by (rule fold_append_hom) (rule mps_bound_hom)
  also have "?f i (fold ?f [0..<i] []) = fold ?f [0..<i] [] @ ?f i []"
    by (rule mps_bound_hom)
  finally show ?thesis
    unfolding mps_bounds_section_def by simp
qed


lemma AppendMpsBound_5:
  "AppendMpsBound st bound_type name (Fin 5) a =
     a @ AppendMpsLineHeader st bound_type ''BOUND'' [] @ mps_pair_text st name ''5'' @ ''\<newline>''"
  by (simp add: AppendMpsBound_def AppendMpsPair_5 AppendMpsLineHeader_def)

lemma AppendMpsPair_not_empty: "AppendMpsPair st name v a \<noteq> []"
  by (simp add: AppendMpsPair_def)











lemma mps_pair_text_column [simp]:
  "mps_pair_text (st\<lparr>current_mps_column := c\<rparr>) = mps_pair_text st"
  by (simp add: mps_pair_text_def fun_eq_iff)





subsection \<open>The variables shown when unused variables are shown\<close>

lemma lp_objective_terms_shown:
  assumes "lp_shows_unused_variables fl"
    and "lp_objective_terms m st fl is (b, sv) = Some (b', sv')"
  shows "length sv' = length sv \<and> set sv' \<subseteq> insert True (set sv)"
  using assms(2)
proof (induction "is" arbitrary: b sv)
  case Nil
  then show ?case by auto
next
  case (Cons i "is")
  from Cons.prems obtain t where
    rest: "lp_objective_terms m st fl is (Append t b, sv[i := True]) = Some (b', sv')"
    using assms(1) by (auto simp add: Let_def split: option.splits)
  have "set (sv[i := True]) \<subseteq> insert True (set sv)"
    by (rule set_update_subset_insert)
  then show ?case using Cons.IH [OF rest] by auto
qed

lemma lp_constraint_terms_shown:
  assumes "lp_shows_unused_variables fl"
    and "lp_constraint_terms m st fl ts (b, sv) = Some (b', sv')"
  shows "length sv' = length sv \<and> set sv' \<subseteq> insert True (set sv)"
  using assms(2)
proof (induction ts arbitrary: b sv)
  case Nil
  then show ?case by auto
next
  case (Cons t ts)
  obtain var_index coeff where t: "t = (var_index, coeff)" by (cases t)
  from Cons.prems obtain trm where
    rest: "lp_constraint_terms m st fl ts (Append trm b, sv[nat var_index := True]) =
      Some (b', sv')"
    using assms(1) by (auto simp add: t split: option.splits)
  have "set (sv[nat var_index := True]) \<subseteq> insert True (set sv)"
    by (rule set_update_subset_insert)
  then show ?case using Cons.IH [OF rest] by auto
qed

lemma lp_constraints_shown:
  assumes "lp_shows_unused_variables fl"
    and "lp_constraints m st fl is (out, sv) = Inr (out', sv')"
  shows "length sv' = length sv \<and> set sv' \<subseteq> insert True (set sv)"
  using assms(2)
proof (induction "is" arbitrary: out sv)
  case Nil
  then show ?case by auto
next
  case (Cons i "is")
  from Cons.prems obtain b1 sv1 where
    terms: "lp_constraint_terms m st fl (ct_terms (constraint m ! i))
        (lp_constraint_start fl m st i, sv) = Some (b1, sv1)"
    and rest: "lp_constraints m st fl is
        (lp_constraint_relations (GetConstraintName m st i) b1
           (ct_lower_bound (constraint m ! i)) (ct_upper_bound (constraint m ! i)) out, sv1) =
        Inr (out', sv')"
    by (auto simp add: lp_constraint_start_def Let_def split: option.splits)
  show ?case
    using Cons.IH [OF rest] lp_constraint_terms_shown [OF assms(1) terms] by auto
qed

lemma unused_variables_shown:
  assumes "lp_shows_unused_variables fl"
    and "lp_objective fl m st = Some (b, sv1)"
    and "lp_constraints m st fl is (out, sv1) = Inr (out', sv)"
    and "i < length (variable m)"
  shows "sv ! i"
proof -
  let ?n = "length (variable m)"
  obtain b0 where "lp_objective_terms m st fl [0..<?n] (b0, replicate ?n True) = Some (b, sv1)"
    using assms(1,2) by (simp add: lp_objective_def Let_def split: if_splits)
  from lp_objective_terms_shown [OF assms(1) this]
  have 1: "length sv1 = ?n" and 2: "set sv1 \<subseteq> {True}"
    by auto
  from lp_constraints_shown [OF assms(1,3)]
  have 3: "length sv = length sv1" and 4: "set sv \<subseteq> insert True (set sv1)"
    by blast+
  have "sv ! i \<in> set sv"
    using assms(4) 1 3 by simp
  then have "sv ! i \<in> {True}"
    using 2 4 by blast
  then show ?thesis by simp
qed

subsection \<open>The two exports of \<open>small_model\<close>\<close>

lemma small_model_mps_lines:
  "drop 8 (lines_of (snd (snd (ExportModelAsMpsFormat default_flags small_model True False
       (new_exporter, []))))) =
     [''NAME          small'', ''ROWS'', '' N  COST    '', '' G  c       '', ''COLUMNS'',
      ''  INTSTART  '' @ [CHR 0x27] @ ''MARKER'' @ [CHR 0x27] @ replicate 28 CHR '' ''
        @ [CHR 0x27] @ ''INTORG'' @ [CHR 0x27] @ ''  '',
      ''    y         c                    1 '',
      ''  INTEND    '' @ [CHR 0x27] @ ''MARKER'' @ [CHR 0x27] @ replicate 28 CHR '' ''
        @ [CHR 0x27] @ ''INTEND'' @ [CHR 0x27] @ ''  '',
      ''    x         COST                 1   c                    1 '',
      ''RHS'', ''    RHS       c                    2 '',
      ''RANGES'', ''    RANGE     c                    5 '',
      ''BOUNDS'', '' FX BOUND     x                    5 '',
      '' LI BOUND     y                    5 '', '' UI BOUND     y                    5 '',
      ''ENDATA'', []]"
  by code_simp

lemma small_model_lp_lines:
  "drop 8 (lines_of (snd (snd (ExportModelAsLpFormat default_flags small_model False
       (new_exporter, []))))) =
     [''Minimize'', '' Obj: +1 x '', ''Subject to'',
      '' c_rhs: +1 x +1 y  <= 7'', '' c_lhs: +1 x +1 y  >= 2'',
      ''Bounds'', '' 5 <= x <= 5'', '' 5 <= y <= 5'', ''Generals'', '' y'', ''End'', []]"
  by code_simp

section \<open>The claims\<close>

text \<open>
  C1 (as amended). For a model with a row that holds an index outside \<open>[0, variable_size)\<close>
  both exports return \<^verbatim>\<open>false\<close>. When they have passed the name check, the return is the
  out-of-range one and \<^verbatim>\<open>*output\<close> is not empty. The LP export leaves there the comment header,
  the line \<open>Maximize\<close> or \<open>Minimize\<close>, the objective and the line \<open>Subject to\<close> (\<open>lp_head\<close>),
  followed by the lines of the constraints \<open>[0..<k]\<close>, \<open>k\<close> being the first constraint with such
  an index. The MPS export leaves there the comment header and the NAME line (\<open>mps_head\<close>),
  the line \<open>ROWS\<close> and the whole ROWS section. When they return at the name check,
  \<^verbatim>\<open>*output\<close> is what the caller passed.
\<close>

theorem out_of_range_reference_partial_text:
  fixes fl m fixed_format obfuscated st "output"
  defines "L \<equiv> lp_enter m obfuscated st"
    and "S \<equiv> (mps_enter m fixed_format obfuscated st)\<lparr>current_mps_column := 0\<rparr>"
  assumes "\<not> all_references_in_range m"
  shows "fst (ExportModelAsLpFormat fl m obfuscated (st, output)) \<noteq> Inr ()
       \<and> fst (ExportModelAsMpsFormat fl m fixed_format obfuscated (st, output)) \<noteq> Inr ()
       \<and> (obfuscated \<or> CheckAllNamesValidity m st \<longrightarrow>
            (\<exists>obj_line_breaker show_variable1 k written show_variable.
               lp_objective fl m L = Some (obj_line_breaker, show_variable1)
               \<and> k < length (constraint m)
               \<and> \<not> row_in_range m (ct_terms (constraint m ! k))
               \<and> (\<forall>j < k. row_in_range m (ct_terms (constraint m ! j)))
               \<and> lp_constraints m L fl [0..<k] (lp_head fl m L obj_line_breaker, show_variable1) =
                   Inr (lp_head fl m L obj_line_breaker @ written, show_variable)
               \<and> ExportModelAsLpFormat fl m obfuscated (st, output) =
                   (Inl OutOfRangeReference, L, lp_head fl m L obj_line_breaker @ written))
            \<and> ExportModelAsMpsFormat fl m fixed_format obfuscated (st, output) =
                (Inl OutOfRangeReference, S,
                 mps_head fl m S @ ''ROWS\<newline>'' @ mps_rows_section m S)
            \<and> snd (snd (ExportModelAsLpFormat fl m obfuscated (st, output))) \<noteq> []
            \<and> snd (snd (ExportModelAsMpsFormat fl m fixed_format obfuscated (st, output))) \<noteq> [])
       \<and> (\<not> obfuscated \<and> \<not> CheckAllNamesValidity m st \<longrightarrow>
            ExportModelAsLpFormat fl m obfuscated (st, output) = (Inl InvalidName, st, output)
            \<and> ExportModelAsMpsFormat fl m fixed_format obfuscated (st, output) =
                (Inl InvalidName, st, output))"
proof -
  have fails: "fst (ExportModelAsLpFormat fl m obfuscated (st, output)) \<noteq> Inr ()"
    "fst (ExportModelAsMpsFormat fl m fixed_format obfuscated (st, output)) \<noteq> Inr ()"
    using assms(3) by (simp_all add: ExportModelAsLpFormat_fst ExportModelAsMpsFormat_fst)
  have gate: "ExportModelAsLpFormat fl m obfuscated (st, output) = (Inl InvalidName, st, output)
      \<and> ExportModelAsMpsFormat fl m fixed_format obfuscated (st, output) =
          (Inl InvalidName, st, output)"
    if "\<not> obfuscated \<and> \<not> CheckAllNamesValidity m st"
    using that by (simp add: ExportModelAsLpFormat_def ExportModelAsMpsFormat_def)
  have past: "(\<exists>obj_line_breaker show_variable1 k written show_variable.
         lp_objective fl m L = Some (obj_line_breaker, show_variable1)
         \<and> k < length (constraint m)
         \<and> \<not> row_in_range m (ct_terms (constraint m ! k))
         \<and> (\<forall>j < k. row_in_range m (ct_terms (constraint m ! j)))
         \<and> lp_constraints m L fl [0..<k] (lp_head fl m L obj_line_breaker, show_variable1) =
             Inr (lp_head fl m L obj_line_breaker @ written, show_variable)
         \<and> ExportModelAsLpFormat fl m obfuscated (st, output) =
             (Inl OutOfRangeReference, L, lp_head fl m L obj_line_breaker @ written))
      \<and> ExportModelAsMpsFormat fl m fixed_format obfuscated (st, output) =
          (Inl OutOfRangeReference, S, mps_head fl m S @ ''ROWS\<newline>'' @ mps_rows_section m S)
      \<and> snd (snd (ExportModelAsLpFormat fl m obfuscated (st, output))) \<noteq> []
      \<and> snd (snd (ExportModelAsMpsFormat fl m fixed_format obfuscated (st, output))) \<noteq> []"
    if p: "obfuscated \<or> CheckAllNamesValidity m st"
  proof -
    have lp: "ExportModelAsLpFormat fl m obfuscated (st, output) = lp_write fl m L"
      and mps: "ExportModelAsMpsFormat fl m fixed_format obfuscated (st, output) =
        mps_write fl m (mps_enter m fixed_format obfuscated st)"
      using p by (auto simp add: ExportModelAsLpFormat_def ExportModelAsMpsFormat_def L_def)
    obtain b sv1 where obj: "lp_objective fl m L = Some (b, sv1)"
      using lp_objective_Some by blast
    obtain k where k: "k < length (constraint m)"
      "\<not> row_in_range m (ct_terms (constraint m ! k))"
      "\<forall>j < k. row_in_range m (ct_terms (constraint m ! j))"
      using first_row_out_of_range [OF assms(3)] by blast
    have "\<forall>j \<in> set [0..<k]. row_in_range m (ct_terms (constraint m ! j))"
      using k(3) by simp
    then obtain out sv where
      before: "lp_constraints m L fl [0..<k] (lp_head fl m L b, sv1) = Inr (out, sv)"
      using lp_constraints_in_range by blast
    obtain written where out: "out = lp_head fl m L b @ written"
      using lp_constraints_extends(2) [OF before] by blast
    have "lp_constraints m L fl [0..<length (constraint m)] (lp_head fl m L b, sv1) = Inl out"
      using k(1,2) before by (rule lp_constraints_stop)
    then have w: "lp_write fl m L = (Inl OutOfRangeReference, L, out)"
      by (simp add: lp_write_cases obj)
    have "transpose_constraints m [0..<length (constraint m)]
        (replicate (length (variable m)) []) = None"
      using assms(3) by (simp add: transpose_constraints_None all_references_in_range_nth)
    then have w': "mps_write fl m (mps_enter m fixed_format obfuscated st) =
        (Inl OutOfRangeReference, S, mps_head fl m S @ ''ROWS\<newline>'' @ mps_rows_section m S)"
      by (simp add: mps_write_text S_def)
    have ne: "lp_head fl m L b \<noteq> []"
      by (simp add: lp_head_def)
    have 1: "\<exists>obj_line_breaker show_variable1 k written show_variable.
         lp_objective fl m L = Some (obj_line_breaker, show_variable1)
         \<and> k < length (constraint m)
         \<and> \<not> row_in_range m (ct_terms (constraint m ! k))
         \<and> (\<forall>j < k. row_in_range m (ct_terms (constraint m ! j)))
         \<and> lp_constraints m L fl [0..<k] (lp_head fl m L obj_line_breaker, show_variable1) =
             Inr (lp_head fl m L obj_line_breaker @ written, show_variable)
         \<and> ExportModelAsLpFormat fl m obfuscated (st, output) =
             (Inl OutOfRangeReference, L, lp_head fl m L obj_line_breaker @ written)"
      using obj k before w unfolding lp out by blast
    show ?thesis
      using 1 ne by (simp add: lp mps w w' out)
  qed
  show ?thesis using fails gate past by blast
qed

theorem out_of_range_reference_partial_text_witness:
  "\<not> all_references_in_range dangling_model
   \<and> ExportModelAsMpsFormat default_flags dangling_model True False (new_exporter, []) =
       (Inl OutOfRangeReference,
        (mps_enter dangling_model True False new_exporter)\<lparr>current_mps_column := 0\<rparr>,
        mps_head default_flags dangling_model
            ((mps_enter dangling_model True False new_exporter)\<lparr>current_mps_column := 0\<rparr>)
          @ ''ROWS\<newline>''
          @ mps_rows_section dangling_model
              ((mps_enter dangling_model True False new_exporter)\<lparr>current_mps_column := 0\<rparr>))
   \<and> fst (ExportModelAsLpFormat default_flags dangling_model False (new_exporter, [])) =
       Inl OutOfRangeReference
   \<and> snd (snd (ExportModelAsLpFormat default_flags dangling_model False (new_exporter, []))) \<noteq> []"
proof -
  have h: "\<not> all_references_in_range dangling_model"
    by code_simp
  have names: "CheckAllNamesValidity dangling_model new_exporter"
    by code_simp
  show ?thesis
    using h names
      out_of_range_reference_partial_text [OF h, of default_flags False new_exporter "[]" True]
    by auto
qed

text \<open>
  The claim as it was stated fails on \<open>dangling_model\<close>: both exports return \<^verbatim>\<open>false\<close> and
  leave text in \<^verbatim>\<open>*output\<close>, the LP export the header (8 lines), the objective and the line
  \<open>Subject to\<close>, the MPS export the header, the NAME line and the ROWS section.
\<close>

theorem out_of_range_output_not_empty_counterexample:
  "\<not> all_references_in_range dangling_model
   \<and> fst (ExportModelAsLpFormat default_flags dangling_model False (new_exporter, [])) =
       Inl OutOfRangeReference
   \<and> drop 8 (lines_of (snd (snd (ExportModelAsLpFormat default_flags dangling_model False
         (new_exporter, []))))) = [''Minimize'', '' Obj: +1 x '', ''Subject to'', []]
   \<and> ExportModelAsMpsFormat default_flags dangling_model True False (new_exporter, []) =
       (Inl OutOfRangeReference,
        \<lparr>num_integer_variables = 0, num_binary_variables = 0, num_continuous_variables = 1,
         num_digits_for_variables = 1, num_digits_for_constraints = 1, current_mps_column = 0,
         use_fixed_mps_format = True, use_obfuscated_names = False, setup_done = True\<rparr>,
        ''* Generated by MPModelProtoExporter\<newline>*   Name             : dangling\<newline>*   Format           : Fixed\<newline>*   Constraints      : 1\<newline>*   Variables        : 1\<newline>*     Binary         : 0\<newline>*     Integer        : 0\<newline>*     Continuous     : 1\<newline>NAME          dangling\<newline>ROWS\<newline> N  COST    \<newline> G  c       \<newline>'')"
  by code_simp

text \<open>
  C2 (as amended). Both exports are past the name check and every row of the model is in
  range, so both return \<^verbatim>\<open>true\<close>; the variable \<open>i\<close> has lower and upper bound both 5. The
  MPS text is \<open>mps_text\<close>, its BOUNDS section is not empty, and in it, between the rows of the
  variables before \<open>i\<close> and those of the variables after \<open>i\<close>, the variable has one FX row
  with the value field \<open>5\<close> when it is continuous, and two rows, LI and then UI, both with the
  value field \<open>5\<close>, when it is an integer variable. In the LP text, after the constraints and
  the line \<open>Bounds\<close>, between the lines of the variables before \<open>i\<close> and those of the variables
  after \<open>i\<close>, the variable has the line \<open>5 <= name <= 5\<close> when it is shown and no line when it
  is not; it is shown when \<^verbatim>\<open>lp_shows_unused_variables\<close> is set.
\<close>

theorem exported_variable_fixed_at_5:
  fixes fl m fixed_format obfuscated st "output" i
  defines "L \<equiv> lp_enter m obfuscated st"
    and "S \<equiv> (mps_enter m fixed_format obfuscated st)\<lparr>current_mps_column := 0\<rparr>"
    and "name \<equiv>
      GetVariableName m ((mps_enter m fixed_format obfuscated st)\<lparr>current_mps_column := 0\<rparr>) i"
  assumes "obfuscated \<or> CheckAllNamesValidity m st"
    and "all_references_in_range m"
    and "i < length (variable m)"
    and "deq (var_lower_bound (variable m ! i)) (Fin 5)"
    and "deq (var_upper_bound (variable m ! i)) (Fin 5)"
  shows "(\<exists>transposed.
            transpose_constraints m [0..<length (constraint m)]
                (replicate (length (variable m)) []) = Some transposed
            \<and> ExportModelAsMpsFormat fl m fixed_format obfuscated (st, output) =
                (Inr (), S, mps_text fl m S transposed))
       \<and> titled ''BOUNDS\<newline>'' (mps_bounds_section m S) =
           ''BOUNDS\<newline>'' @ mps_bounds_section m S
       \<and> (\<not> is_integer (variable m ! i) \<longrightarrow>
            mps_bounds_section m S =
              fold (mps_bound m S) [0..<i] []
                @ AppendMpsLineHeader S ''FX'' ''BOUND'' [] @ mps_pair_text S name ''5'' @ ''\<newline>''
                @ fold (mps_bound m S) [Suc i..<length (variable m)] [])
       \<and> (is_integer (variable m ! i) \<longrightarrow>
            mps_bounds_section m S =
              fold (mps_bound m S) [0..<i] []
                @ AppendMpsLineHeader S ''LI'' ''BOUND'' [] @ mps_pair_text S name ''5'' @ ''\<newline>''
                @ AppendMpsLineHeader S ''UI'' ''BOUND'' [] @ mps_pair_text S name ''5'' @ ''\<newline>''
                @ fold (mps_bound m S) [Suc i..<length (variable m)] [])
       \<and> (\<exists>obj_line_breaker show_variable1 output4 show_variable.
            lp_objective fl m L = Some (obj_line_breaker, show_variable1)
            \<and> lp_constraints m L fl [0..<length (constraint m)]
                  (lp_head fl m L obj_line_breaker, show_variable1) = Inr (output4, show_variable)
            \<and> (lp_shows_unused_variables fl \<longrightarrow> show_variable ! i)
            \<and> ExportModelAsLpFormat fl m obfuscated (st, output) =
                (Inr (), L,
                 output4 @ ''Bounds\<newline>''
                   @ (if dne (objective_offset m) (Fin 0) then '' 1 <= Constant <= 1\<newline>''
                      else [])
                   @ lp_bounds_lines m L show_variable [0..<i]
                   @ (if show_variable ! i
                      then '' 5 <= '' @ c_str (GetVariableName m L i) @ '' <= 5\<newline>'' else [])
                   @ lp_bounds_lines m L show_variable [Suc i..<length (variable m)]
                   @ lp_integer_sections m L show_variable @ ''End\<newline>''))"
proof -
  have lb: "var_lower_bound (variable m ! i) = Fin 5"
    and ub: "var_upper_bound (variable m ! i) = Fin 5"
    using assms(7,8) by simp_all
  have nb: "\<not> IsBoolean (variable m ! i)"
    using lb by (rule not_IsBoolean_5)
  have name: "name = GetVariableName m S i"
    unfolding name_def S_def ..
  have lp: "ExportModelAsLpFormat fl m obfuscated (st, output) = lp_write fl m L"
    and mps: "ExportModelAsMpsFormat fl m fixed_format obfuscated (st, output) =
      mps_write fl m (mps_enter m fixed_format obfuscated st)"
    using assms(4) by (auto simp add: ExportModelAsLpFormat_def ExportModelAsMpsFormat_def L_def)
  have "transpose_constraints m [0..<length (constraint m)]
      (replicate (length (variable m)) []) \<noteq> None"
    using assms(5) by (simp add: transpose_constraints_None all_references_in_range_nth)
  then obtain transposed where tr: "transpose_constraints m [0..<length (constraint m)]
      (replicate (length (variable m)) []) = Some transposed"
    by blast
  have 1: "\<exists>transposed.
      transpose_constraints m [0..<length (constraint m)]
          (replicate (length (variable m)) []) = Some transposed
      \<and> ExportModelAsMpsFormat fl m fixed_format obfuscated (st, output) =
          (Inr (), S, mps_text fl m S transposed)"
    using tr by (simp add: mps mps_write_text S_def)
  have fx: "mps_bound m S i [] =
      AppendMpsLineHeader S ''FX'' ''BOUND'' [] @ mps_pair_text S name ''5'' @ ''\<newline>''"
    if "\<not> is_integer (variable m ! i)"
    using that by (simp add: mps_bound_def lb ub Let_def AppendMpsBound_5 name)
  have li: "mps_bound m S i [] =
      AppendMpsLineHeader S ''LI'' ''BOUND'' [] @ mps_pair_text S name ''5'' @ ''\<newline>''
        @ AppendMpsLineHeader S ''UI'' ''BOUND'' [] @ mps_pair_text S name ''5'' @ ''\<newline>''"
    if "is_integer (variable m ! i)"
    using that nb by (simp add: mps_bound_def lb ub Let_def dne_def AppendMpsBound_5 name)
  have split: "mps_bounds_section m S =
      fold (mps_bound m S) [0..<i] [] @ mps_bound m S i []
        @ fold (mps_bound m S) [Suc i..<length (variable m)] []"
    using assms(6) by (rule mps_bounds_section_split)
  have "mps_bound m S i [] \<noteq> []"
    using fx li by (cases "is_integer (variable m ! i)") (simp_all add: mps_pair_text_def)
  then have 2: "titled ''BOUNDS\<newline>'' (mps_bounds_section m S) =
      ''BOUNDS\<newline>'' @ mps_bounds_section m S"
    by (simp add: titled_def split)
  have 3: "\<not> is_integer (variable m ! i) \<longrightarrow>
      mps_bounds_section m S =
        fold (mps_bound m S) [0..<i] []
          @ AppendMpsLineHeader S ''FX'' ''BOUND'' [] @ mps_pair_text S name ''5'' @ ''\<newline>''
          @ fold (mps_bound m S) [Suc i..<length (variable m)] []"
    using fx by (simp add: split)
  have 4: "is_integer (variable m ! i) \<longrightarrow>
      mps_bounds_section m S =
        fold (mps_bound m S) [0..<i] []
          @ AppendMpsLineHeader S ''LI'' ''BOUND'' [] @ mps_pair_text S name ''5'' @ ''\<newline>''
          @ AppendMpsLineHeader S ''UI'' ''BOUND'' [] @ mps_pair_text S name ''5'' @ ''\<newline>''
          @ fold (mps_bound m S) [Suc i..<length (variable m)] []"
    using li by (simp add: split)
  obtain b sv1 where obj: "lp_objective fl m L = Some (b, sv1)"
    using lp_objective_Some by blast
  have "\<forall>j \<in> set [0..<length (constraint m)]. row_in_range m (ct_terms (constraint m ! j))"
    using assms(5) by (simp add: all_references_in_range_nth)
  then obtain output4 sv where csts: "lp_constraints m L fl [0..<length (constraint m)]
      (lp_head fl m L b, sv1) = Inr (output4, sv)"
    using lp_constraints_in_range by blast
  have shown: "lp_shows_unused_variables fl \<longrightarrow> sv ! i"
    using unused_variables_shown [OF _ obj csts assms(6)] by blast
  have line: "lp_variable_bounds m L sv i [] =
      (if sv ! i then '' 5 <= '' @ c_str (GetVariableName m L i) @ '' <= 5\<newline>'' else [])"
    by (simp add: lp_variable_bounds_def lb ub Let_def dne_def dround_5 printf_f0_5 printf_G16_5)
  have "lp_write fl m L = (Inr (), L, lp_sections m L sv output4)"
    by (simp add: lp_write_cases obj csts)
  then have whole: "ExportModelAsLpFormat fl m obfuscated (st, output) =
      (Inr (), L,
       output4 @ ''Bounds\<newline>''
         @ (if dne (objective_offset m) (Fin 0) then '' 1 <= Constant <= 1\<newline>'' else [])
         @ lp_bounds_lines m L sv [0..<i]
         @ (if sv ! i then '' 5 <= '' @ c_str (GetVariableName m L i) @ '' <= 5\<newline>'' else [])
         @ lp_bounds_lines m L sv [Suc i..<length (variable m)]
         @ lp_integer_sections m L sv @ ''End\<newline>'')"
    unfolding lp lp_sections_text lp_bounds_lines_split [OF assms(6)] line
    by simp
  have 5: "\<exists>obj_line_breaker show_variable1 output4 show_variable.
      lp_objective fl m L = Some (obj_line_breaker, show_variable1)
      \<and> lp_constraints m L fl [0..<length (constraint m)]
            (lp_head fl m L obj_line_breaker, show_variable1) = Inr (output4, show_variable)
      \<and> (lp_shows_unused_variables fl \<longrightarrow> show_variable ! i)
      \<and> ExportModelAsLpFormat fl m obfuscated (st, output) =
          (Inr (), L,
           output4 @ ''Bounds\<newline>''
             @ (if dne (objective_offset m) (Fin 0) then '' 1 <= Constant <= 1\<newline>''
                else [])
             @ lp_bounds_lines m L show_variable [0..<i]
             @ (if show_variable ! i
                then '' 5 <= '' @ c_str (GetVariableName m L i) @ '' <= 5\<newline>'' else [])
             @ lp_bounds_lines m L show_variable [Suc i..<length (variable m)]
             @ lp_integer_sections m L show_variable @ ''End\<newline>'')"
    using obj csts shown whole by blast
  show ?thesis
    using 1 2 3 4 5 by blast
qed
theorem exported_variable_fixed_at_5_witness:
  "(False \<or> CheckAllNamesValidity small_model new_exporter)
   \<and> all_references_in_range small_model
   \<and> 0 < length (variable small_model)
   \<and> deq (var_lower_bound (variable small_model ! 0)) (Fin 5)
   \<and> deq (var_upper_bound (variable small_model ! 0)) (Fin 5)
   \<and> \<not> is_integer (variable small_model ! 0)
   \<and> mps_bounds_section small_model small_mps_state =
       '' FX BOUND     x                    5 \<newline>''
         @ fold (mps_bound small_model small_mps_state) [Suc 0..<length (variable small_model)] []
   \<and> fst (ExportModelAsMpsFormat default_flags small_model True False (new_exporter, [])) = Inr ()
   \<and> drop 21 (lines_of (snd (snd (ExportModelAsMpsFormat default_flags small_model True False
         (new_exporter, []))))) =
       [''BOUNDS'', '' FX BOUND     x                    5 '',
        '' LI BOUND     y                    5 '', '' UI BOUND     y                    5 '',
        ''ENDATA'', []]
   \<and> fst (ExportModelAsLpFormat default_flags small_model False (new_exporter, [])) = Inr ()
   \<and> drop 13 (lines_of (snd (snd (ExportModelAsLpFormat default_flags small_model False
         (new_exporter, []))))) =
       [''Bounds'', '' 5 <= x <= 5'', '' 5 <= y <= 5'', ''Generals'', '' y'', ''End'', []]"
proof -
  have v: "variable small_model ! 0 =
      \<lparr>var_proto_name = Some ''x'', var_lower_bound = Fin 5, var_upper_bound = Fin 5,
       is_integer = False, objective_coefficient = Fin 1\<rparr>"
    by (simp add: small_model_def)
  have names: "False \<or> CheckAllNamesValidity small_model new_exporter"
    by code_simp
  have range: "all_references_in_range small_model"
    by code_simp
  have i: "0 < length (variable small_model)"
    by (simp add: small_model_def)
  have lb: "deq (var_lower_bound (variable small_model ! 0)) (Fin 5)"
    and ub: "deq (var_upper_bound (variable small_model ! 0)) (Fin 5)"
    and cont: "\<not> is_integer (variable small_model ! 0)"
    by (simp_all add: v)
  have row: "AppendMpsLineHeader small_mps_state ''FX'' ''BOUND'' []
      @ mps_pair_text small_mps_state (GetVariableName small_model small_mps_state 0) ''5''
      @ ''\<newline>'' = '' FX BOUND     x                    5 \<newline>''"
    by code_simp
  note fixed = exported_variable_fixed_at_5 [OF names range i lb ub, of default_flags True "[]",
      unfolded small_mps_state_def [symmetric]]
  from fixed have "\<not> is_integer (variable small_model ! 0) \<longrightarrow>
      mps_bounds_section small_model small_mps_state =
        fold (mps_bound small_model small_mps_state) [0..<0] []
          @ AppendMpsLineHeader small_mps_state ''FX'' ''BOUND'' []
          @ mps_pair_text small_mps_state (GetVariableName small_model small_mps_state 0) ''5''
          @ ''\<newline>''
          @ fold (mps_bound small_model small_mps_state) [Suc 0..<length (variable small_model)] []"
    by blast
  then have sect: "mps_bounds_section small_model small_mps_state =
      '' FX BOUND     x                    5 \<newline>''
        @ fold (mps_bound small_model small_mps_state) [Suc 0..<length (variable small_model)] []"
    using cont row by simp
  from fixed have ok: "fst (ExportModelAsMpsFormat default_flags small_model True False
        (new_exporter, [])) = Inr ()"
    "fst (ExportModelAsLpFormat default_flags small_model False (new_exporter, [])) = Inr ()"
    by auto
  have mps: "drop 21 (lines_of (snd (snd (ExportModelAsMpsFormat default_flags small_model True
        False (new_exporter, []))))) =
      [''BOUNDS'', '' FX BOUND     x                    5 '',
       '' LI BOUND     y                    5 '', '' UI BOUND     y                    5 '',
       ''ENDATA'', []]"
    using arg_cong [OF small_model_mps_lines, of "drop 13"] by simp
  have lp: "drop 13 (lines_of (snd (snd (ExportModelAsLpFormat default_flags small_model False
        (new_exporter, []))))) =
      [''Bounds'', '' 5 <= x <= 5'', '' 5 <= y <= 5'', ''Generals'', '' y'', ''End'', []]"
    using arg_cong [OF small_model_lp_lines, of "drop 5"] by simp
  show ?thesis
    using names range i lb ub cont sect ok mps lp by blast
qed

text \<open>
  The claim as it was stated fails for the integer variable \<open>y\<close> of \<open>small_model\<close>: its rows
  are LI and UI, not FX.
\<close>

theorem integer_variable_fixed_at_5_counterexample:
  "deq (var_lower_bound (variable small_model ! 1)) (Fin 5)
   \<and> deq (var_upper_bound (variable small_model ! 1)) (Fin 5)
   \<and> is_integer (variable small_model ! 1)
   \<and> mps_bound small_model small_mps_state 1 [] =
       '' LI BOUND     y                    5 \<newline> UI BOUND     y                    5 \<newline>''
   \<and> mps_bound small_model small_mps_state 1 [] \<noteq>
       AppendMpsBound small_mps_state ''FX'' ''y'' (Fin 5) []"
  by code_simp



text \<open>
  C4. The line breaker with \<^verbatim>\<open>max_line_size\<close> 3 is given the token \<open>abc\<close> twice. Neither
  token is longer than 3, and the text it builds has the line \<open>\<^verbatim>\<open> abc\<close>\<close> of length 4: the
  space written after the newline is not counted, \<^verbatim>\<open>line_size_\<close> being reset to the length
  of the token alone. The same through the LP export of \<open>small_model\<close> with
  \<^verbatim>\<open>lp_max_line_length\<close> 5: the objective has the line \<open>\<^verbatim>\<open> +1 x \<close>\<close> of length 6, made of the
  one token \<open>\<^verbatim>\<open>+1 x \<close>\<close> of length 5. (The tokens are not split and the count is reset as the
  claim says; see \<open>Append_output\<close> and \<open>Append_line_size\<close>.)
\<close>

theorem line_breaker_line_exceeds_max:
  "lines_of (GetOutput (Append ''abc'' (Append ''abc'' (LineBreaker_new 3)))) = [''abc'', '' abc'']
   \<and> length '' abc'' = 4 \<and> length ''abc'' = 3
   \<and> line_size (Append ''abc'' (Append ''abc'' (LineBreaker_new 3))) = 3
   \<and> take 4 (drop 8 (lines_of (snd (snd (ExportModelAsLpFormat
         \<lparr>lp_shows_unused_variables = False, lp_max_line_length = 5\<rparr> small_model False
         (new_exporter, []))))))
       = [''Minimize'', [], ''  Obj: '', '' +1 x '']
   \<and> length '' +1 x '' = 6 \<and> length ''+1 x '' = 5"
proof -
  have "take 4 (drop 8 (lines_of (snd (snd (ExportModelAsLpFormat
         \<lparr>lp_shows_unused_variables = False, lp_max_line_length = 5\<rparr> small_model False
         (new_exporter, []))))))
       = [''Minimize'', [], ''  Obj: '', '' +1 x '']"
    by code_simp
  then show ?thesis
    by (simp add: Append_def LineBreaker_new_def GetOutput_def Let_def)
qed




text \<open>
  C6. For a model whose declared names all pass the name check (or with obfuscation on) and
  whose rows refer to variables of the model only, both exports return \<^verbatim>\<open>true\<close>, from every
  exporter that can be met, and the text ends with the line \<open>End\<close> for the LP format and
  \<open>ENDATA\<close> for the MPS format, so it is not empty. The sizes of the two repeated fields are
  \<^verbatim>\<open>int\<close> values.
\<close>

theorem valid_model_exports_end_with_sentinel:
  assumes "obfuscated \<or> declared_names_valid m" and "all_references_in_range m"
    and "reachable m st"
    and "length (variable m) < 2 ^ 31" and "length (constraint m) < 2 ^ 31"
  shows "fst (ExportModelAsLpFormat fl m obfuscated (st, output)) = Inr ()
       \<and> (\<exists>pre. snd (snd (ExportModelAsLpFormat fl m obfuscated (st, output))) =
             pre @ ''\<newline>End\<newline>'')
       \<and> fst (ExportModelAsMpsFormat fl m fixed_format obfuscated (st, output)) = Inr ()
       \<and> (\<exists>pre. snd (snd (ExportModelAsMpsFormat fl m fixed_format obfuscated (st, output))) =
             pre @ ''\<newline>ENDATA\<newline>'')"
proof -
  have gate: "obfuscated \<or> CheckAllNamesValidity m st"
    using assms(1) reachable_digits [OF assms(3-5)]
      CheckAllNamesValidity_declared [of m st, OF _ _ _ assms(4,5)]
    by blast
  have lp: "ExportModelAsLpFormat fl m obfuscated (st, output) =
      lp_write fl m (lp_enter m obfuscated st)"
    and mps: "ExportModelAsMpsFormat fl m fixed_format obfuscated (st, output) =
      mps_write fl m (mps_enter m fixed_format obfuscated st)"
    using gate by (auto simp add: ExportModelAsLpFormat_def ExportModelAsMpsFormat_def)
  have ok: "fst (lp_write fl m (lp_enter m obfuscated st)) = Inr ()"
    "fst (mps_write fl m (mps_enter m fixed_format obfuscated st)) = Inr ()"
    using assms(2) by (simp_all add: lp_write_fst mps_write_fst)
  show ?thesis
    using ok lp_write_shape [OF ok(1)] mps_write_shape(2) [OF ok(2)] by (simp add: lp mps)
qed

theorem valid_model_exports_end_with_sentinel_witness:
  "declared_names_valid small_model \<and> all_references_in_range small_model
   \<and> reachable small_model new_exporter
   \<and> length (variable small_model) < 2 ^ 31 \<and> length (constraint small_model) < 2 ^ 31
   \<and> fst (ExportModelAsLpFormat default_flags small_model False (new_exporter, [])) = Inr ()
   \<and> fst (ExportModelAsMpsFormat default_flags small_model True False (new_exporter, [])) = Inr ()
   \<and> (\<exists>pre. snd (snd (ExportModelAsMpsFormat default_flags small_model True False
         (new_exporter, []))) = pre @ ''\<newline>ENDATA\<newline>'')"
proof -
  have n: "declared_names_valid small_model" by code_simp
  have r: "all_references_in_range small_model" by code_simp
  have l: "length (variable small_model) < 2 ^ 31" "length (constraint small_model) < 2 ^ 31"
    by (simp_all add: small_model_def)
  have h: "False \<or> declared_names_valid small_model" using n by simp
  show ?thesis
    using n r l reachable_new [of small_model]
      valid_model_exports_end_with_sentinel [OF h r reachable_new l, of default_flags "[]" True]
    by simp
qed

text \<open>
  C7. With the obfuscation flag set, neither \<^verbatim>\<open>ExportModelAsLpFormat\<close> nor
  \<^verbatim>\<open>ExportModelAsMpsFormat\<close> returns through the name check, whatever the declared names
  of the model, the state of the exporter and the flags are: what they return depends on
  the variable indices of the rows only.
\<close>

theorem obfuscated_export_never_fails_on_names:
  "fst (ExportModelAsLpFormat fl m True (st, output)) \<noteq> Inl InvalidName
   \<and> fst (ExportModelAsMpsFormat fl m fixed_format True (st, output)) \<noteq> Inl InvalidName
   \<and> fst (ExportModelAsLpFormat fl m True (st, output)) =
       (if all_references_in_range m then Inr () else Inl OutOfRangeReference)
   \<and> fst (ExportModelAsMpsFormat fl m fixed_format True (st, output)) =
       (if all_references_in_range m then Inr () else Inl OutOfRangeReference)"
  by (simp add: ExportModelAsLpFormat_fst ExportModelAsMpsFormat_fst)

text \<open>
  C8. One exporter exports \<open>badly_named_model\<close> in the LP format three times: with
  obfuscation, then twice without, each time into an empty string. The two exports without
  obfuscation have the same model, entry point and flag: the first returns \<^verbatim>\<open>true\<close> and the
  whole text, with the name \<open>1x\<close> in it, and the second returns \<^verbatim>\<open>false\<close> at the name check and
  leaves the string empty. The name check reads \<^verbatim>\<open>use_obfuscated_names_\<close> through
  \<^verbatim>\<open>GetVariableName\<close> before the export assigns it, so it sees the flag of the previous
  export.
\<close>

theorem repeated_export_differs_after_obfuscated_export:
  "fst obfuscated_run = Inr ()
   \<and> fst first_plain_run = Inr ()
   \<and> drop 8 (lines_of (snd (snd first_plain_run))) =
       [''Minimize'', '' Obj: +1 1x '', ''Subject to'', ''Bounds'', '' 0 <= 1x'', ''End'', []]
   \<and> second_plain_run = (Inl InvalidName, fst (snd first_plain_run), [])
   \<and> snd (snd first_plain_run) \<noteq> snd (snd second_plain_run)"
  by code_simp

text \<open>
  C9. When a row of a constraint holds an index outside \<open>[0, variable_size)\<close> paired with the
  coefficient 0, \<^verbatim>\<open>WriteLpTerm\<close> returns \<^verbatim>\<open>false\<close> for that entry and the loop that builds
  the transpose returns \<^verbatim>\<open>false\<close> at it: in both the range check comes before the test of
  the coefficient. Both exports then return \<^verbatim>\<open>false\<close>, through the out-of-range return unless
  the name check, which comes first, has already returned.
\<close>

theorem zero_coefficient_out_of_range_fails:
  assumes "ct_proto \<in> set (constraint m)" and "(var_index, coeff) \<in> set (ct_terms ct_proto)"
    and "var_index < 0 \<or> int (length (variable m)) \<le> var_index"
    and "deq coeff (Fin 0)"
  shows "WriteLpTerm m st var_index coeff = None
       \<and> transpose_terms m cst_index ((var_index, coeff) # ts) transposed = None
       \<and> fst (ExportModelAsLpFormat fl m obfuscated (st, output)) =
           (if \<not> obfuscated \<and> \<not> CheckAllNamesValidity m st then Inl InvalidName
            else Inl OutOfRangeReference)
       \<and> fst (ExportModelAsMpsFormat fl m fixed_format obfuscated (st, output)) =
           (if \<not> obfuscated \<and> \<not> CheckAllNamesValidity m st then Inl InvalidName
            else Inl OutOfRangeReference)"
  using assms(3) not_all_references_in_range [OF assms(1-3)]
  by (simp add: WriteLpTerm_None ExportModelAsLpFormat_fst ExportModelAsMpsFormat_fst)

theorem zero_coefficient_out_of_range_fails_witness:
  "constraint dangling_model ! 0 \<in> set (constraint dangling_model)
   \<and> (1, Fin 0) \<in> set (ct_terms (constraint dangling_model ! 0))
   \<and> int (length (variable dangling_model)) \<le> 1
   \<and> deq (Fin 0) (Fin 0)
   \<and> WriteLpTerm dangling_model new_exporter 1 (Fin 0) = None
   \<and> fst (ExportModelAsLpFormat default_flags dangling_model False (new_exporter, [])) =
       Inl OutOfRangeReference
   \<and> fst (ExportModelAsMpsFormat default_flags dangling_model True False (new_exporter, [])) =
       Inl OutOfRangeReference"
proof -
  have h: "constraint dangling_model ! 0 \<in> set (constraint dangling_model)"
    "(1, Fin 0) \<in> set (ct_terms (constraint dangling_model ! 0))"
    "(1::int) < 0 \<or> int (length (variable dangling_model)) \<le> 1"
    "deq (Fin 0) (Fin 0)"
    by (simp_all add: dangling_model_def)
  have names: "CheckAllNamesValidity dangling_model new_exporter"
    by code_simp
  show ?thesis
    using h names
      zero_coefficient_out_of_range_fails [OF h, of new_exporter 0 "[]" "[]" default_flags False
        "[]" True]
    by simp
qed

text \<open>
  C10. An integer variable that is not boolean-shaped, with lower bound 0 and upper bound
  \<open>+\<infinity>\<close>, adds nothing to the BOUNDS section of the MPS text: the body of the loop over the
  variables leaves the section as it was.
\<close>

theorem mps_bound_integer_zero_to_infinity:
  assumes "is_integer (variable m ! i)" and "\<not> IsBoolean (variable m ! i)"
    and "deq (var_lower_bound (variable m ! i)) (Fin 0)"
    and "deq (var_upper_bound (variable m ! i)) PosInf"
  shows "mps_bound m st i bounds_section = bounds_section"
  using assms by (simp add: mps_bound_def dne_def Let_def)

theorem mps_bound_integer_zero_to_infinity_witness:
  "is_integer (variable small_model ! 2) \<and> \<not> IsBoolean (variable small_model ! 2)
   \<and> deq (var_lower_bound (variable small_model ! 2)) (Fin 0)
   \<and> deq (var_upper_bound (variable small_model ! 2)) PosInf
   \<and> mps_bound small_model new_exporter 2 [] = []"
proof -
  have v: "variable small_model ! 2 =
      \<lparr>var_proto_name = Some ''z'', var_lower_bound = Fin 0, var_upper_bound = PosInf,
       is_integer = True, objective_coefficient = Fin 0\<rparr>"
    by (simp add: small_model_def)
  have h: "is_integer (variable small_model ! 2)" "\<not> IsBoolean (variable small_model ! 2)"
    "deq (var_lower_bound (variable small_model ! 2)) (Fin 0)"
    "deq (var_upper_bound (variable small_model ! 2)) PosInf"
    by (simp_all add: v IsBoolean_def)
  show ?thesis
    using h mps_bound_integer_zero_to_infinity [OF h, of new_exporter "[]"] by simp
qed

end
